theory Spec2Isabelle
  imports Main
begin

section \<open>Host agent of a virtual machine instance (pkg/hostagent)\<close>

text \<open>
  The host agent starts QEMU, supervises it, and shuts it down. Everything it does is a
  call to a collaborator (a process, a socket, a file, the logger, the event encoder), so
  the model is a trace semantics: each function of \<^verbatim>\<open>hostagent.go\<close> becomes a
  function that returns the calls it makes, in program order, together with its result.
  The result of every collaborator call is read from an environment record. A Go
  \<^verbatim>\<open>error\<close> is an \<open>err option\<close>, \<open>None\<close> being \<^verbatim>\<open>nil\<close>. A function that can
  wait forever (a channel receive, a pipe read) returns \<open>Blocked\<close> in that case.
\<close>

subsection \<open>Errors\<close>

datatype err =
    Err string                \<comment> \<open>an error returned by a collaborator\<close>
  | EOF                       \<comment> \<open>\<^verbatim>\<open>io.EOF\<close>\<close>
  | Errorf string int         \<comment> \<open>\<^verbatim>\<open>errors.Errorf(format, n)\<close>\<close>
  | Wrapf err string          \<comment> \<open>\<^verbatim>\<open>errors.Wrapf(err, format, ...)\<close>\<close>
  | MultiErr "err list"       \<comment> \<open>\<^verbatim>\<open>*multierror.Error\<close> with its \<^verbatim>\<open>Errors\<close>\<close>

text \<open>
  Modelled from the spec: the multi-error type of \<^verbatim>\<open>hashicorp/go-multierror\<close>, which
  is not under src/. The spec (section 9) fixes it as an ordered list of error values
  whose combination rule is concatenation without deduplication. \<open>multierror_Append\<close>
  is \<^verbatim>\<open>multierror.Append(err, e)\<close> with \<^verbatim>\<open>e\<close> not nil: the errors of \<^verbatim>\<open>err\<close>
  followed by those of \<^verbatim>\<open>e\<close>, a combined error contributing its members.
\<close>

fun parts :: "err \<Rightarrow> err list" where
  "parts (MultiErr es) = es"
| "parts e = [e]"

definition parts_opt :: "err option \<Rightarrow> err list" where
  "parts_opt r = (case r of None \<Rightarrow> [] | Some e \<Rightarrow> parts e)"

definition multierror_Append :: "err option \<Rightarrow> err \<Rightarrow> err" where
  "multierror_Append mErr e = MultiErr (parts_opt mErr @ parts e)"

subsection \<open>Calls to collaborators\<close>

datatype level = DebugLevel | InfoLevel | WarnLevel | ErrorLevel

datatype inst_file = qmp_sock | qemu_pid | ga_sock

record Status =
  Running :: bool
  Degraded :: bool
  Aborted :: bool
  Errors :: "string list"
  SSHLocalPort :: int

datatype time = ZeroTime | At nat

record Event =
  Time :: time
  Status :: Status

record mount =
  mount_id :: nat
  mount_close :: "err option"   \<comment> \<open>what \<^verbatim>\<open>m.close()\<close> returns\<close>

datatype act =
    Log level string                  \<comment> \<open>a call to the logger \<^verbatim>\<open>a.l\<close>, with its message\<close>
  | Encode Event                      \<comment> \<open>\<^verbatim>\<open>a.eventEnc.Encode(ev)\<close>\<close>
  | qCmd_StdoutPipe
  | qCmd_StderrPipe
  | qCmd_Start                        \<comment> \<open>\<^verbatim>\<open>qCmd.Start()\<close>\<close>
  | go_qCmd_Wait                      \<comment> \<open>the goroutine sending \<^verbatim>\<open>qCmd.Wait()\<close> to \<^verbatim>\<open>qWaitCh\<close>\<close>
  | ssh_keygen_R int                  \<comment> \<open>\<^verbatim>\<open>sshFixCmd.CombinedOutput()\<close>, with the port\<close>
  | go_startHostAgentRoutines         \<comment> \<open>the goroutine of lines 164-172\<close>
  | select_sigintCh_qWaitCh           \<comment> \<open>the \<^verbatim>\<open>select\<close> of the main loop\<close>
  | ssh_ExitMaster int
  | m_close mount                     \<comment> \<open>\<^verbatim>\<open>m.close()\<close> of a mount\<close>
  | qmp_NewSocketMonitor
  | qmp_Connect
  | qmp_Disconnect
  | SystemPowerdown
  | select_qWaitCh_deadline nat       \<comment> \<open>the \<^verbatim>\<open>select\<close> on \<^verbatim>\<open>qWaitCh\<close> and \<^verbatim>\<open>time.After(timeout)\<close>\<close>
  | Process_Kill
  | recv_qWaitCh                      \<comment> \<open>\<^verbatim>\<open><-qWaitCh\<close> in \<^verbatim>\<open>killQEMU\<close>\<close>
  | os_RemoveAll inst_file
  | logPipeRoutine_scan string        \<comment> \<open>\<^verbatim>\<open>logPipeRoutine\<close> starts scanning a pipe (its header)\<close>
  | waitForRequirements string        \<comment> \<open>\<^verbatim>\<open>a.waitForRequirements(ctx, label, ...)\<close>\<close>
  | setupMounts
  | go_watchGuestAgentEvents
  | NewGuestAgentClient
  | client_Info
  | client_Events
  | portForwarder_OnEvent nat         \<comment> \<open>\<^verbatim>\<open>a.portForwarder.OnEvent(ctx, ev)\<close>, the event by its number\<close>
  | ssh_O string int                  \<comment> \<open>the \<^verbatim>\<open>ssh -O verb ... -p port\<close> command of \<^verbatim>\<open>forwardSSH\<close>\<close>
  | select_ctxDone_After              \<comment> \<open>the \<^verbatim>\<open>select\<close> on \<^verbatim>\<open>ctx.Done()\<close> and \<^verbatim>\<open>time.After(10s)\<close>\<close>

datatype 'a outcome = Returned 'a | Blocked

subsection \<open>The teardown stack: \<^verbatim>\<open>onClose\<close> and \<^verbatim>\<open>close\<close>\<close>

text \<open>
  An element of \<^verbatim>\<open>onClose\<close> is a \<^verbatim>\<open>func() error\<close>. Called after the calls \<open>t\<close> made so
  far, it makes further calls and returns an error or nil.
\<close>

type_synonym closure = "act list \<Rightarrow> act list \<times> err option"

record HostAgent =
  LocalPort :: int            \<comment> \<open>\<^verbatim>\<open>a.y.SSH.LocalPort\<close>\<close>
  onClose :: "closure list"   \<comment> \<open>LIFO\<close>

text \<open>
  The loop \<^verbatim>\<open>for i := len(a.onClose) - 1; i >= 0; i--\<close>, with \<open>n = i + 1\<close> the number of
  elements still to call. The index is below the length in every call.
\<close>

fun close_loop :: "nat \<Rightarrow> closure list \<Rightarrow> err option \<Rightarrow> act list \<Rightarrow> act list \<times> err option" where
  "close_loop 0 fs mErr t = (t, mErr)"
| "close_loop (Suc i) fs mErr t =
     (case (fs ! i) t of
        (new, None) \<Rightarrow> close_loop i fs mErr (t @ new)
      | (new, Some e) \<Rightarrow> close_loop i fs (Some (multierror_Append mErr e)) (t @ new))"

definition close :: "HostAgent \<Rightarrow> act list \<Rightarrow> act list \<times> err option" where
  "close a t =
     close_loop (length (onClose a)) (onClose a) None
       (t @ [Log InfoLevel ''Shutting down the host agent''])"

text \<open>
  The teardown stack as the spec words it (section 4.5): the actions are taken one after
  the other from a list, none is skipped, and every error is kept, in order.
\<close>

fun runAll_in_order :: "closure list \<Rightarrow> act list \<Rightarrow> act list \<times> err option list" where
  "runAll_in_order [] t = (t, [])"
| "runAll_in_order (f # fs) t =
     (case f t of (new, r) \<Rightarrow>
        (case runAll_in_order fs (t @ new) of (t', rs) \<Rightarrow> (t', r # rs)))"

definition combined :: "err option list \<Rightarrow> err option" where
  "combined rs =
     (if list_all (\<lambda>r. r = None) rs then None
      else Some (MultiErr (concat (map parts_opt rs))))"

text \<open>A registered action that makes the calls \<open>new\<close> and returns \<open>r\<close> whenever it is called.\<close>

definition action :: "act list \<times> err option \<Rightarrow> closure" where
  "action b = (\<lambda>t. b)"

subsection \<open>The environment of \<^verbatim>\<open>Run\<close>\<close>

datatype signal =
    Sigint                    \<comment> \<open>\<^verbatim>\<open>a.sigintCh\<close> delivers first\<close>
  | QExit "err option"        \<comment> \<open>\<^verbatim>\<open>qWaitCh\<close> delivers the result of \<^verbatim>\<open>qCmd.Wait()\<close> first\<close>
  | NoSignal                  \<comment> \<open>neither channel ever delivers\<close>

datatype race =
    ExitFirst "err option"    \<comment> \<open>\<^verbatim>\<open>qWaitCh\<close> delivers before the deadline\<close>
  | DeadlineFirst

datatype pipe = qStdout | qStderr

text \<open>
  The goroutine of lines 164-172 runs beside \<^verbatim>\<open>Run\<close>. What \<^verbatim>\<open>Run\<close> can see of
  it is how many actions it has appended to \<^verbatim>\<open>onClose\<close> when \<^verbatim>\<open>close\<close> reads the
  slice, and where its status event falls in the event stream.
\<close>

datatype emit_time =
    BeforeReturn              \<comment> \<open>before the deferred functions of \<^verbatim>\<open>Run\<close>\<close>
  | AfterReturn               \<comment> \<open>after \<^verbatim>\<open>Run\<close> has returned\<close>
  | NotEmitted                \<comment> \<open>the process ends first\<close>

record env =
  SSH_LocalPort :: int                        \<comment> \<open>\<^verbatim>\<open>a.y.SSH.LocalPort\<close>\<close>
  StdoutPipe_err :: "err option"
  StderrPipe_err :: "err option"
  Start_err :: "err option"
  pipe_lines :: "pipe \<Rightarrow> string list"        \<comment> \<open>the lines a pipe still holds\<close>
  pipe_eof :: "pipe \<Rightarrow> bool"                  \<comment> \<open>whether the pipe then ends or stays silent\<close>
  keygen_err :: "err option"
  main_select :: signal
  essential_err :: "err option"               \<comment> \<open>\<^verbatim>\<open>waitForRequirements\<close>, essential\<close>
  setupMounts_result :: "mount list \<times> err option"
  optional_err :: "err option"                \<comment> \<open>\<^verbatim>\<open>waitForRequirements\<close>, optional\<close>
  Error_string :: "err \<Rightarrow> string"             \<comment> \<open>\<^verbatim>\<open>err.Error()\<close>\<close>
  registered :: nat                           \<comment> \<open>length of \<^verbatim>\<open>onClose\<close> when \<^verbatim>\<open>close\<close> reads it\<close>
  routines_emit :: emit_time
  ExitMaster_err :: "err option"
  NewSocketMonitor_err :: "err option"
  Connect_err :: "err option"
  SystemPowerdown_err :: "err option"
  graceful :: race
  Kill_err :: "err option"
  qWait_after_kill :: "err option option"     \<comment> \<open>\<open>None\<close>: \<^verbatim>\<open>qWaitCh\<close> never delivers\<close>
  time_Now :: "act list \<Rightarrow> nat"               \<comment> \<open>the clock, after the calls made so far\<close>
  Encode_err :: "Event \<Rightarrow> err option"

subsection \<open>Events\<close>

definition emitEvent :: "env \<Rightarrow> Event \<Rightarrow> act list \<Rightarrow> act list" where
  "emitEvent env ev t =
     (let ev' = (if Time ev = ZeroTime then ev\<lparr>Time := At (time_Now env t)\<rparr> else ev)
      in t @ [Encode ev'] @
         (case Encode_err env ev' of
            None \<Rightarrow> []
          | Some err \<Rightarrow> [Log ErrorLevel ''failed to emit an event'']))"

text \<open>The events handed to the encoder by a sequence of calls.\<close>

fun encoded :: "act list \<Rightarrow> Event list" where
  "encoded [] = []"
| "encoded (Encode ev # t) = ev # encoded t"
| "encoded (_ # t) = encoded t"




subsection \<open>The shutdown protocol: \<^verbatim>\<open>shutdownQEMU\<close> and \<^verbatim>\<open>killQEMU\<close>\<close>

definition Minute :: nat where
  "Minute = 60 * 1000000000"

definition killQEMU :: "env \<Rightarrow> act list \<Rightarrow> act list \<times> err option outcome" where
  "killQEMU env t =
     (let t1 = t @ [Process_Kill] @
            (case Kill_err env of None \<Rightarrow> [] | Some killErr \<Rightarrow> [Log WarnLevel ''failed to kill QEMU''])
      in case qWait_after_kill env of
           None \<Rightarrow> (t1 @ [recv_qWaitCh], Blocked)
         | Some qWaitErr \<Rightarrow>
             (t1 @ [recv_qWaitCh,
                    Log InfoLevel ''QEMU has exited, after killing forcibly'',
                    os_RemoveAll qemu_pid],
              Returned qWaitErr))"

text \<open>A deferred call runs when the function returns, not when it blocks.\<close>

definition deferring :: "act list \<Rightarrow> act list \<times> 'a outcome \<Rightarrow> act list \<times> 'a outcome" where
  "deferring d res = (case res of (t, Returned x) \<Rightarrow> (t @ d, Returned x) | (t, Blocked) \<Rightarrow> (t, Blocked))"

definition shutdownQEMU :: "env \<Rightarrow> nat \<Rightarrow> act list \<Rightarrow> act list \<times> err option outcome" where
  "shutdownQEMU env timeout t =
     (let t0 = t @ [Log InfoLevel ''Shutting down QEMU with ACPI'', qmp_NewSocketMonitor] in
      case NewSocketMonitor_err env of
        Some e \<Rightarrow>
          killQEMU env
            (t0 @ [Log WarnLevel ''failed to open the QMP socket %q, forcibly killing QEMU''])
      | None \<Rightarrow>
         (let t1 = t0 @ [qmp_Connect] in
          case Connect_err env of
            Some e \<Rightarrow>
              killQEMU env
                (t1 @ [Log WarnLevel ''failed to connect to the QMP socket %q, forcibly killing QEMU''])
          | None \<Rightarrow>
              deferring [qmp_Disconnect]
               (let t2 = t1 @ [Log InfoLevel ''Sending QMP system_powerdown command'', SystemPowerdown] in
                case SystemPowerdown_err env of
                  Some e \<Rightarrow>
                    killQEMU env
                      (t2 @ [Log WarnLevel
                        ''failed to send system_powerdown command via the QMP socket %q, forcibly killing QEMU''])
                | None \<Rightarrow>
                   (let t3 = t2 @ [select_qWaitCh_deadline timeout] in
                    case graceful env of
                      ExitFirst qWaitErr \<Rightarrow>
                        (t3 @ [Log InfoLevel ''QEMU has exited''], Returned qWaitErr)
                    | DeadlineFirst \<Rightarrow>
                        killQEMU env
                          (t3 @ [Log WarnLevel ''QEMU did not exit in %v, forcibly killing QEMU''])))))"

text \<open>The calls a function adds to the calls \<open>t\<close> it started from.\<close>

definition added :: "act list \<Rightarrow> act list \<Rightarrow> act list" where
  "added t t' = drop (length t) t'"

subsection \<open>Startup routines: \<^verbatim>\<open>startHostAgentRoutines\<close>\<close>

text \<open>The first registered action (lines 231-237): it always returns nil.\<close>

definition exit_master :: "env \<Rightarrow> HostAgent \<Rightarrow> closure" where
  "exit_master env a = (\<lambda>t.
     ([Log DebugLevel ''shutting down the SSH master'', ssh_ExitMaster (LocalPort a)] @
      (case ExitMaster_err env of
         None \<Rightarrow> []
       | Some exitMasterErr \<Rightarrow> [Log WarnLevel ''failed to exit SSH master'']),
      None))"

text \<open>The second registered action (lines 246-254): \<^verbatim>\<open>for _, m := range mounts\<close>.\<close>

fun unmount_loop :: "mount list \<Rightarrow> err option \<Rightarrow> act list \<times> err option" where
  "unmount_loop [] unmountMErr = ([], unmountMErr)"
| "unmount_loop (m # ms) unmountMErr =
     (case unmount_loop ms
        (case mount_close m of
           None \<Rightarrow> unmountMErr
         | Some unmountErr \<Rightarrow> Some (multierror_Append unmountMErr unmountErr))
      of (new, r) \<Rightarrow> (m_close m # new, r))"

definition unmount_all :: "mount list \<Rightarrow> closure" where
  "unmount_all mounts = (\<lambda>t. unmount_loop mounts None)"

definition append_err :: "err option \<Rightarrow> err option \<Rightarrow> err option" where
  "append_err mErr r = (case r of None \<Rightarrow> mErr | Some e \<Rightarrow> Some (multierror_Append mErr e))"

definition startHostAgentRoutines ::
    "env \<Rightarrow> HostAgent \<Rightarrow> act list \<Rightarrow> act list \<times> err option \<times> HostAgent" where
  "startHostAgentRoutines env a t =
     (let a1 = a\<lparr>onClose := onClose a @ [exit_master env a]\<rparr>;
          t1 = t @ [waitForRequirements ''essential''];
          mErr1 = append_err None (essential_err env);
          t2 = t1 @ [setupMounts];
          mounts = fst (setupMounts_result env);
          mErr2 = append_err mErr1 (snd (setupMounts_result env));
          a2 = a1\<lparr>onClose := onClose a1 @ [unmount_all mounts]\<rparr>;
          t3 = t2 @ [go_watchGuestAgentEvents, waitForRequirements ''optional''];
          mErr3 = append_err mErr2 (optional_err env)
      in (t3, mErr3, a2))"

text \<open>The goroutine of lines 164-172, run to its end.\<close>

definition routines_task :: "env \<Rightarrow> Status \<Rightarrow> HostAgent \<Rightarrow> act list \<times> HostAgent" where
  "routines_task env stBase a =
     (case startHostAgentRoutines env a [] of (t, haErr, a') \<Rightarrow>
        (let stRunning = (case haErr of
                None \<Rightarrow> stBase
              | Some e \<Rightarrow> stBase\<lparr>Degraded := True, Errors := Errors stBase @ [Error_string env e]\<rparr>)
         in (emitEvent env \<lparr>Time = ZeroTime, Status = stRunning\<lparr>Running := True\<rparr>\<rparr> t, a')))"

subsection \<open>\<^verbatim>\<open>Run\<close>\<close>

definition pipe_header :: "pipe \<Rightarrow> string" where
  "pipe_header p = (case p of qStdout \<Rightarrow> ''qemu[stdout]'' | qStderr \<Rightarrow> ''qemu[stderr]'')"

text \<open>
  \<^verbatim>\<open>logPipeRoutine\<close> scans a pipe of QEMU. \<^verbatim>\<open>qCmd.Wait()\<close> closes the read ends
  of both pipes before it returns, so once \<^verbatim>\<open>qWaitCh\<close> has delivered (\<open>closed\<close>) the
  scan ends at once and nothing is logged. Before that the routine logs the lines of the
  pipe and returns when the pipe ends. The result is \<open>True\<close> when the routine returns,
  \<open>False\<close> when it waits for input that never comes.
\<close>

definition logPipeRoutine :: "env \<Rightarrow> bool \<Rightarrow> pipe \<Rightarrow> act list \<Rightarrow> act list \<times> bool" where
  "logPipeRoutine env closed p t =
     (if closed then (t @ [logPipeRoutine_scan (pipe_header p)], True)
      else
        (t @ [logPipeRoutine_scan (pipe_header p)] @
           map (\<lambda>line. Log DebugLevel (pipe_header p @ '': '' @ line)) (pipe_lines env p),
         pipe_eof env p))"

datatype deferred = defer_abortEv | defer_logPipeRoutine pipe

definition zero_Status :: Status where
  "zero_Status = \<lparr>Running = False, Degraded = False, Aborted = False, Errors = [], SSHLocalPort = 0\<rparr>"

definition abortEv :: Event where
  "abortEv = \<lparr>Time = ZeroTime, Status = zero_Status\<lparr>Aborted := True\<rparr>\<rparr>"

text \<open>
  The deferred calls, the last deferred first, with \<open>closed\<close> as in \<open>logPipeRoutine\<close>;
  \<open>False\<close> when one of them never returns.
\<close>

fun run_deferred :: "env \<Rightarrow> bool \<Rightarrow> deferred list \<Rightarrow> act list \<Rightarrow> act list \<times> bool" where
  "run_deferred env closed [] t = (t, True)"
| "run_deferred env closed (defer_abortEv # ds) t =
     run_deferred env closed ds (emitEvent env abortEv t)"
| "run_deferred env closed (defer_logPipeRoutine p # ds) t =
     (case logPipeRoutine env closed p t of
        (t', True) \<Rightarrow> run_deferred env closed ds t'
      | (t', False) \<Rightarrow> (t', False))"

text \<open>The loop of lines 174-186: both cases of the \<^verbatim>\<open>select\<close> return.\<close>

definition Run_loop :: "env \<Rightarrow> HostAgent \<Rightarrow> act list \<Rightarrow> act list \<times> err option outcome" where
  "Run_loop env a t =
     (let t1 = t @ [select_sigintCh_qWaitCh] in
      case main_select env of
        Sigint \<Rightarrow>
          (let t2 = t1 @ [Log InfoLevel ''Received SIGINT, shutting down the host agent''] in
           case close a t2 of
             (t3, None) \<Rightarrow> shutdownQEMU env (3 * Minute) t3
           | (t3, Some closeErr) \<Rightarrow>
               shutdownQEMU env (3 * Minute)
                 (t3 @ [Log WarnLevel ''an error during shutting down the host agent'']))
      | QExit qWaitErr \<Rightarrow> (t1 @ [Log InfoLevel ''QEMU has exited''], Returned qWaitErr)
      | NoSignal \<Rightarrow> (t1, Blocked))"

text \<open>
  The \<^verbatim>\<open>HostAgent\<close> as \<^verbatim>\<open>close\<close> finds it: of the actions the startup goroutine
  registers, the first \<open>registered env\<close> are in \<^verbatim>\<open>onClose\<close>.
\<close>

definition at_select :: "env \<Rightarrow> Status \<Rightarrow> HostAgent \<Rightarrow> HostAgent" where
  "at_select env stBase a =
     a\<lparr>onClose := take (registered env) (onClose (snd (routines_task env stBase a)))\<rparr>"

text \<open>
  Lines 116-145: the deferred event, the pipes, the start of QEMU. The result is the
  calls, the error that makes \<^verbatim>\<open>Run\<close> return here (if any) and the deferred calls,
  the last deferred first.
\<close>

definition Run_start :: "env \<Rightarrow> act list \<times> err option \<times> deferred list" where
  "Run_start env =
     (let d0 = [defer_abortEv];
          t0 = [qCmd_StdoutPipe] in
      case StdoutPipe_err env of
        Some err \<Rightarrow> (t0, Some err, d0)
      | None \<Rightarrow>
     (let d1 = defer_logPipeRoutine qStdout # d0;
          t1 = t0 @ [qCmd_StderrPipe] in
      case StderrPipe_err env of
        Some err \<Rightarrow> (t1, Some err, d1)
      | None \<Rightarrow>
     (let d2 = defer_logPipeRoutine qStderr # d1;
          t2 = t1 @ [Log InfoLevel ''Starting QEMU (hint: to watch the boot progress, see %q)'',
                     Log DebugLevel ''qCmd.Args: %v'',
                     qCmd_Start] in
      case Start_err env of
        Some err \<Rightarrow> (t2, Some err, d2)
      | None \<Rightarrow> (t2 @ [go_qCmd_Wait], None, d2))))"

definition stBase :: "HostAgent \<Rightarrow> Status" where
  "stBase a = zero_Status\<lparr>SSHLocalPort := LocalPort a\<rparr>"

text \<open>Lines 147-162: the check of the port, the booting event, \<^verbatim>\<open>ssh-keygen -R\<close>.\<close>

definition Run_boot :: "env \<Rightarrow> HostAgent \<Rightarrow> act list \<Rightarrow> act list \<times> err option" where
  "Run_boot env a t =
     (let sshLocalPort = LocalPort a in
      if sshLocalPort < 0
      then (t, Some (Errorf ''invalid ssh local port %d'' sshLocalPort))
      else
       (let stBooting = stBase a;
            t1 = emitEvent env \<lparr>Time = ZeroTime, Status = stBooting\<rparr> t;
            t2 = t1 @ [ssh_keygen_R sshLocalPort] in
        case keygen_err env of
          Some err \<Rightarrow> (t2, Some (Wrapf err ''failed to run %v: %q''))
        | None \<Rightarrow> (t2, None)))"

text \<open>
  The body of \<^verbatim>\<open>Run\<close> up to its \<^verbatim>\<open>return\<close>: the calls, the value returned, the
  deferred calls and whether the main loop was reached (the startup goroutine launched).
\<close>

definition Run_body ::
    "env \<Rightarrow> HostAgent \<Rightarrow> act list \<times> err option outcome \<times> deferred list \<times> bool" where
  "Run_body env a =
     (case Run_start env of
        (t, Some err, ds) \<Rightarrow> (t, Returned (Some err), ds, False)
      | (t, None, ds) \<Rightarrow>
         (case Run_boot env a t of
            (t', Some err) \<Rightarrow> (t', Returned (Some err), ds, False)
          | (t', None) \<Rightarrow>
             (case Run_loop env (at_select env (stBase a) a) (t' @ [go_startHostAgentRoutines]) of
                (t'', r) \<Rightarrow> (t'', r, ds, True))))"

text \<open>
  \<^verbatim>\<open>New\<close> (lines 51-94), as far as \<^verbatim>\<open>Run\<close> uses its result: the port of the
  configuration and an empty \<^verbatim>\<open>onClose\<close>.
\<close>

definition New :: "env \<Rightarrow> HostAgent" where
  "New env = \<lparr>LocalPort = SSH_LocalPort env, onClose = []\<rparr>"

record run_result =
  ret :: "err option outcome"   \<comment> \<open>what \<^verbatim>\<open>Run\<close> returns, \<open>Blocked\<close> if it never does\<close>
  calls :: "act list"           \<comment> \<open>the calls of the goroutine of \<^verbatim>\<open>Run\<close>, in order\<close>
  events :: "Event list"        \<comment> \<open>the event stream, in the order of the \<^verbatim>\<open>Encode\<close> calls\<close>

text \<open>
  \<^verbatim>\<open>Run\<close>: the body, then the deferred calls if the body returns. When the body
  returns from the main loop it has received from \<^verbatim>\<open>qWaitCh\<close> (line 182, 210 or 223),
  so \<^verbatim>\<open>qCmd.Wait()\<close> has returned and the pipes are closed; when it returns before
  the loop, they are not. The event stream holds the events of \<^verbatim>\<open>Run\<close> in their
  order, and the status event of the startup goroutine where the environment puts it.
\<close>

definition Run :: "env \<Rightarrow> run_result" where
  "Run env =
     (let a = New env in
      case Run_body env a of (t, r, ds, launched) \<Rightarrow>
        (let fin = (case r of
                      Returned x \<Rightarrow> run_deferred env launched ds t
                    | Blocked \<Rightarrow> (t, False));
             bg = encoded (fst (routines_task env (stBase a) a))
         in \<lparr>ret = (if snd fin then r else Blocked),
             calls = fst fin,
             events =
               encoded t @
               (if launched \<and> routines_emit env = BeforeReturn then bg else []) @
               encoded (added t (fst fin)) @
               (if launched \<and> routines_emit env = AfterReturn then bg else [])\<rparr>))"

subsection \<open>The guest agent watcher: \<^verbatim>\<open>watchGuestAgentEvents\<close>\<close>

record guest_event =
  ev_number :: nat
  ev_Errors :: "string list"

text \<open>What the collaborators answer during one iteration of the loop of the watcher.\<close>

record cycle =
  probe_NewClient_err :: "err option"     \<comment> \<open>in \<^verbatim>\<open>isGuestAgentSocketAccessible\<close>\<close>
  probe_Info_err :: "err option"
  RemoveAll_err :: "err option"
  forward_err :: "err option"             \<comment> \<open>\<^verbatim>\<open>cmd.Output()\<close> of the forward command\<close>
  NewClient_err :: "err option"           \<comment> \<open>in \<^verbatim>\<open>processGuestAgentEvents\<close>\<close>
  Info_err :: "err option"
  guest_events :: "guest_event list"      \<comment> \<open>the events passed to \<^verbatim>\<open>onEvent\<close>\<close>
  Events_ret :: "err option outcome"      \<comment> \<open>\<^verbatim>\<open>client.Events\<close>: its error, or it never returns\<close>
  ctx_Done :: bool                        \<comment> \<open>whether \<^verbatim>\<open>ctx.Done()\<close> wins the \<^verbatim>\<open>select\<close>\<close>
  cancel_err :: "err option"              \<comment> \<open>\<^verbatim>\<open>cmd.Output()\<close> of the cancel command\<close>
  RemoveAll_after_err :: "err option"

definition isGuestAgentSocketAccessible :: "cycle \<Rightarrow> act list \<Rightarrow> act list \<times> bool" where
  "isGuestAgentSocketAccessible c t =
     (let t1 = t @ [NewGuestAgentClient] in
      case probe_NewClient_err c of
        Some err \<Rightarrow> (t1, False)
      | None \<Rightarrow> (t1 @ [client_Info], probe_Info_err c = None))"

definition forwardSSH :: "err option \<Rightarrow> int \<Rightarrow> bool \<Rightarrow> act list \<Rightarrow> act list \<times> err option" where
  "forwardSSH output_err port cancel t =
     (let verb = (if cancel then ''cancel'' else ''forward'');
          t' = t @ [ssh_O verb port] in
      case output_err of
        Some err \<Rightarrow> (t', Some (Wrapf err ''failed to run %v: %q''))
      | None \<Rightarrow> (t', None))"

definition onEvent :: "guest_event \<Rightarrow> act list" where
  "onEvent ev =
     [Log DebugLevel ''guest agent event: %+v''] @
     map (\<lambda>f. Log WarnLevel (''received error from the guest: '' @ f)) (ev_Errors ev) @
     [portForwarder_OnEvent (ev_number ev)]"

definition processGuestAgentEvents :: "cycle \<Rightarrow> act list \<Rightarrow> act list \<times> err option outcome" where
  "processGuestAgentEvents c t =
     (let t1 = t @ [NewGuestAgentClient] in
      case NewClient_err c of
        Some err \<Rightarrow> (t1, Returned (Some err))
      | None \<Rightarrow>
     (let t2 = t1 @ [client_Info] in
      case Info_err c of
        Some err \<Rightarrow> (t2, Returned (Some err))
      | None \<Rightarrow>
     (let t3 = t2 @ [Log DebugLevel ''guest agent info: %+v'', client_Events] @
               concat (map onEvent (guest_events c)) in
      case Events_ret c of
        Blocked \<Rightarrow> (t3, Blocked)
      | Returned (Some err) \<Rightarrow> (t3, Returned (Some err))
      | Returned None \<Rightarrow> (t3, Returned (Some EOF)))))"

text \<open>Lines 282-290: the probe, and the forward when the probe fails.\<close>

definition reconnect :: "int \<Rightarrow> cycle \<Rightarrow> act list \<Rightarrow> act list" where
  "reconnect port c t =
     (case isGuestAgentSocketAccessible c t of
        (t1, True) \<Rightarrow> t1
      | (t1, False) \<Rightarrow>
         (let t2 = t1 @ [os_RemoveAll ga_sock] @
                (case RemoveAll_err c of
                   None \<Rightarrow> []
                 | Some err \<Rightarrow>
                     [Log WarnLevel ''failed to clean up %q (host) before setting up forwarding'']);
              t3 = t2 @ [Log InfoLevel ''Forwarding %q (guest) to %q (host)''] in
          case forwardSSH (forward_err c) port False t3 of
            (t4, None) \<Rightarrow> t4
          | (t4, Some err) \<Rightarrow>
              t4 @ [Log WarnLevel ''failed to setting up forward from %q (guest) to %q (host)'']))"

text \<open>Lines 295-304: the case \<^verbatim>\<open>ctx.Done()\<close>.\<close>

definition stop_forwarding :: "int \<Rightarrow> cycle \<Rightarrow> act list \<Rightarrow> act list" where
  "stop_forwarding port c t =
     (let t1 = t @ [Log InfoLevel ''Stopping forwarding %q to %q''];
          verbCancel = True in
      case forwardSSH (cancel_err c) port verbCancel t1 of (t2, r) \<Rightarrow>
        (let t3 = t2 @ (case r of
                    None \<Rightarrow> []
                  | Some err \<Rightarrow>
                      [Log WarnLevel ''failed to stop forwarding %q (remote) to %q (local)''])
         in t3 @ [os_RemoveAll ga_sock] @
            (case RemoveAll_after_err c of
               None \<Rightarrow> []
             | Some err \<Rightarrow>
                 [Log WarnLevel ''failed to clean up %q (host) after stopping forwarding''])))"

datatype cycle_end =
    NextCycle        \<comment> \<open>the loop goes on\<close>
  | Stopped          \<comment> \<open>the watcher returns\<close>
  | InEvents         \<comment> \<open>\<^verbatim>\<open>client.Events\<close> never returns\<close>

text \<open>One iteration of the loop of lines 281-307.\<close>

definition watch_cycle :: "int \<Rightarrow> cycle \<Rightarrow> act list \<Rightarrow> act list \<times> cycle_end" where
  "watch_cycle port c t =
     (case processGuestAgentEvents c (reconnect port c t) of
        (t1, Blocked) \<Rightarrow> (t1, InEvents)
      | (t1, Returned r) \<Rightarrow>
         (let t2 = t1 @ (case r of
                    None \<Rightarrow> []
                  | Some err \<Rightarrow>
                      [Log WarnLevel ''connection to the guest agent was closed unexpectedly'']);
              t3 = t2 @ [select_ctxDone_After] in
          if ctx_Done c then (stop_forwarding port c t3, Stopped) else (t3, NextCycle)))"

text \<open>
  The loop, over the answers of the collaborators in its successive iterations. When the
  list is used up the loop is still running: \<open>NextCycle\<close>.
\<close>

fun watchGuestAgentEvents :: "int \<Rightarrow> cycle list \<Rightarrow> act list \<Rightarrow> act list \<times> cycle_end" where
  "watchGuestAgentEvents port [] t = (t, NextCycle)"
| "watchGuestAgentEvents port (c # cs) t =
     (case watch_cycle port c t of
        (t', NextCycle) \<Rightarrow> watchGuestAgentEvents port cs t'
      | (t', e) \<Rightarrow> (t', e))"

text \<open>The forward commands among some calls, and the calls before the first of them.\<close>

definition forwards :: "int \<Rightarrow> act list \<Rightarrow> act list" where
  "forwards port t = filter (\<lambda>x. x = ssh_O ''forward'' port) t"

subsection \<open>Concrete environments\<close>

text \<open>
  An instance on port 60022 whose startup succeeds and whose QEMU then exits by itself
  with status 0; the other environments differ from it in the fields named.
\<close>

definition quiet_env :: env where
  "quiet_env =
     \<lparr>SSH_LocalPort = 60022,
      StdoutPipe_err = None,
      StderrPipe_err = None,
      Start_err = None,
      pipe_lines = (\<lambda>p. []),
      pipe_eof = (\<lambda>p. True),
      keygen_err = None,
      main_select = QExit None,
      essential_err = None,
      setupMounts_result = ([], None),
      optional_err = None,
      Error_string = (\<lambda>e. ''error''),
      registered = 2,
      routines_emit = BeforeReturn,
      ExitMaster_err = None,
      NewSocketMonitor_err = None,
      Connect_err = None,
      SystemPowerdown_err = None,
      graceful = ExitFirst None,
      Kill_err = None,
      qWait_after_kill = Some None,
      time_Now = (\<lambda>t. 1),
      Encode_err = (\<lambda>ev. None)\<rparr>"

definition exit_1_env :: env where
  "exit_1_env =
     quiet_env\<lparr>main_select := QExit (Some (Err ''exit status 1'')),
               pipe_lines := (\<lambda>p. [''late output'']), pipe_eof := (\<lambda>p. False)\<rparr>"


definition unkillable_env :: env where
  "unkillable_env =
     quiet_env\<lparr>main_select := Sigint, graceful := DeadlineFirst,
               Kill_err := Some (Err ''operation not permitted''), qWait_after_kill := None\<rparr>"


definition hung_guest_env :: env where
  "hung_guest_env = quiet_env\<lparr>main_select := Sigint, graceful := DeadlineFirst\<rparr>"


definition mount_A :: mount where
  "mount_A = \<lparr>mount_id = 0, mount_close = None\<rparr>"

definition mount_B :: mount where
  "mount_B = \<lparr>mount_id = 1, mount_close = Some (Err ''umount failed'')\<rparr>"

definition two_mounts_env :: env where
  "two_mounts_env =
     quiet_env\<lparr>main_select := Sigint, setupMounts_result := ([mount_A, mount_B], None)\<rparr>"

definition no_qmp_env :: env where
  "no_qmp_env =
     quiet_env\<lparr>main_select := Sigint, NewSocketMonitor_err := Some (Err ''no such file'')\<rparr>"

definition reachable_cycle :: cycle where
  "reachable_cycle =
     \<lparr>probe_NewClient_err = None,
      probe_Info_err = None,
      RemoveAll_err = None,
      forward_err = None,
      NewClient_err = None,
      Info_err = None,
      guest_events = [\<lparr>ev_number = 0, ev_Errors = []\<rparr>],
      Events_ret = Returned None,
      ctx_Done = False,
      cancel_err = None,
      RemoveAll_after_err = None\<rparr>"

definition unreachable_cycle :: cycle where
  "unreachable_cycle =
     reachable_cycle\<lparr>probe_Info_err := Some (Err ''connection refused''),
                     Info_err := Some (Err ''connection refused'')\<rparr>"

text \<open>The calls \<^verbatim>\<open>m.close()\<close> among some calls, and the calls that are not log lines.\<close>

fun unmounts :: "act list \<Rightarrow> mount list" where
  "unmounts [] = []"
| "unmounts (m_close m # t) = m # unmounts t"
| "unmounts (_ # t) = unmounts t"

fun is_Log :: "act \<Rightarrow> bool" where
  "is_Log (Log l s) = True"
| "is_Log _ = False"

text \<open>
  The calls of a successful start of QEMU, the deferred calls at that point, the stacks of
  deferred calls \<^verbatim>\<open>Run\<close> can return with, and the calls the deferred functions make.
\<close>

definition start_calls :: "act list" where
  "start_calls =
     [qCmd_StdoutPipe, qCmd_StderrPipe,
      Log InfoLevel ''Starting QEMU (hint: to watch the boot progress, see %q)'',
      Log DebugLevel ''qCmd.Args: %v'', qCmd_Start, go_qCmd_Wait]"

definition all_deferred :: "deferred list" where
  "all_deferred = [defer_logPipeRoutine qStderr, defer_logPipeRoutine qStdout, defer_abortEv]"

definition deferred_stacks :: "deferred list set" where
  "deferred_stacks =
     {[defer_abortEv], [defer_logPipeRoutine qStdout, defer_abortEv], all_deferred}"

fun deferred_call :: "act \<Rightarrow> bool" where
  "deferred_call (logPipeRoutine_scan h) = True"
| "deferred_call (Log l s) = (l = DebugLevel \<or> l = ErrorLevel)"
| "deferred_call (Encode ev) = (Aborted (Status ev) \<and> \<not> Running (Status ev))"
| "deferred_call _ = False"



definition startup_ok :: "env \<Rightarrow> bool" where
  "startup_ok env \<longleftrightarrow>
     StdoutPipe_err env = None \<and> StderrPipe_err env = None \<and> Start_err env = None \<and>
     0 \<le> SSH_LocalPort env \<and> keygen_err env = None"

subsection \<open>Properties of the teardown stack\<close>

lemma combined_Nil: "combined [] = None"
  by (simp add: combined_def)

lemma combined_snoc_None: "combined (rs @ [None]) = combined rs"
  by (simp add: combined_def parts_opt_def)

lemma concat_parts_opt_None:
  "list_all (\<lambda>r. r = None) rs \<Longrightarrow> concat (map parts_opt rs) = []"
  by (induction rs) (simp_all add: parts_opt_def)

lemma combined_snoc_Some:
  "combined (rs @ [Some e]) = Some (multierror_Append (combined rs) e)"
  by (simp add: combined_def multierror_Append_def concat_parts_opt_None)
     (simp add: parts_opt_def)

lemma runAll_in_order_snoc:
  "runAll_in_order (fs @ [f]) t =
     (case runAll_in_order fs t of (t', rs) \<Rightarrow>
        (case f t' of (new, r) \<Rightarrow> (t' @ new, rs @ [r])))"
  by (induction fs arbitrary: t) (auto split: prod.splits)

lemma close_loop_acc:
  "n \<le> length fs \<Longrightarrow> runAll_in_order (rev (take n fs)) t = (t', rs) \<Longrightarrow>
   close_loop n fs (combined done) t = (t', combined (done @ rs))"
proof (induction n arbitrary: t t' rs "done")
  case 0
  then show ?case by simp
next
  case (Suc n)
  from Suc.prems(1) have lt: "n < length fs" by simp
  then have tk: "rev (take (Suc n) fs) = (fs ! n) # rev (take n fs)"
    by (simp add: take_Suc_conv_app_nth)
  obtain new r where f: "(fs ! n) t = (new, r)" by (cases "(fs ! n) t")
  obtain t1 rs1 where rest: "runAll_in_order (rev (take n fs)) (t @ new) = (t1, rs1)"
    by (cases "runAll_in_order (rev (take n fs)) (t @ new)")
  from Suc.prems(2) tk f rest have eq: "t' = t1" "rs = r # rs1" by simp_all
  from lt have le: "n \<le> length fs" by simp
  show ?case
  proof (cases r)
    case None
    have "close_loop n fs (combined (done @ [None])) (t @ new) = (t1, combined ((done @ [None]) @ rs1))"
      by (rule Suc.IH [OF le rest])
    with None f eq show ?thesis by (simp add: combined_snoc_None)
  next
    case (Some e)
    have "close_loop n fs (combined (done @ [Some e])) (t @ new) = (t1, combined ((done @ [Some e]) @ rs1))"
      by (rule Suc.IH [OF le rest])
    with Some f eq show ?thesis by (simp add: combined_snoc_Some)
  qed
qed

lemma close_refines_runAll:
  "close a t =
     (case runAll_in_order (rev (onClose a)) (t @ [Log InfoLevel ''Shutting down the host agent''])
      of (t', rs) \<Rightarrow> (t', combined rs))"
proof -
  obtain t' rs where r:
    "runAll_in_order (rev (onClose a)) (t @ [Log InfoLevel ''Shutting down the host agent'']) = (t', rs)"
    by (cases "runAll_in_order (rev (onClose a)) (t @ [Log InfoLevel ''Shutting down the host agent''])")
  then have "runAll_in_order (rev (take (length (onClose a)) (onClose a)))
      (t @ [Log InfoLevel ''Shutting down the host agent'']) = (t', rs)"
    by simp
  from close_loop_acc [OF le_refl this, of "[]"] r show ?thesis
    by (simp add: close_def combined_Nil)
qed

lemma runAll_in_order_actions:
  "runAll_in_order (map action bs) t = (t @ concat (map fst bs), map snd bs)"
  by (induction bs arbitrary: t) (auto simp: action_def split: prod.splits)

text \<open>
  Claim C2. For any sequence of actions registered on the teardown stack, \<^verbatim>\<open>close\<close>
  calls them in exactly the reverse of the order of registration, a failing action does
  not keep the remaining ones from running, and the combined error holds every failure:
  with the actions \<open>bs\<close> registered in this order, the calls made are those of the
  actions from the last to the first, whatever each returns, the error is the combination
  of their results in that order, and each error returned is part of it.
  (\<open>close_refines_runAll\<close> is the same fact for actions that depend on the calls made
  before them.)
\<close>

theorem close_reverse_order_all_errors:
  "close (a\<lparr>onClose := map action bs\<rparr>) t =
     (t @ [Log InfoLevel ''Shutting down the host agent''] @ concat (map fst (rev bs)),
      combined (map snd (rev bs))) \<and>
   (\<forall>e. Some e \<in> set (map snd bs) \<longrightarrow>
      (\<exists>es. combined (map snd (rev bs)) = Some (MultiErr es) \<and> set (parts e) \<subseteq> set es))"
proof
  show "close (a\<lparr>onClose := map action bs\<rparr>) t =
     (t @ [Log InfoLevel ''Shutting down the host agent''] @ concat (map fst (rev bs)),
      combined (map snd (rev bs)))"
    by (simp add: close_refines_runAll rev_map runAll_in_order_actions)
next
  show "\<forall>e. Some e \<in> set (map snd bs) \<longrightarrow>
      (\<exists>es. combined (map snd (rev bs)) = Some (MultiErr es) \<and> set (parts e) \<subseteq> set es)"
  proof (intro allI impI)
    fix e assume e: "Some e \<in> set (map snd bs)"
    then have "\<not> list_all (\<lambda>r. r = None) (map snd (rev bs))"
      by (force simp: list_all_iff)
    then have c: "combined (map snd (rev bs)) =
        Some (MultiErr (concat (map parts_opt (map snd (rev bs)))))"
      by (simp add: combined_def)
    from e have "Some e \<in> set (map snd (rev bs))" by simp
    then have "set (parts_opt (Some e)) \<subseteq> set (concat (map parts_opt (map snd (rev bs))))"
      by (metis (no_types, lifting) Sup_upper image_eqI list.set_map set_concat)
    then have "set (parts e) \<subseteq> set (concat (map parts_opt (map snd (rev bs))))"
      by (simp add: parts_opt_def)
    with c show "\<exists>es. combined (map snd (rev bs)) = Some (MultiErr es) \<and> set (parts e) \<subseteq> set es"
      by blast
  qed
qed

text \<open>Three actions, the last two failing: both failures are kept, the last registered first.\<close>

theorem close_reverse_order_witness:
  "close \<lparr>LocalPort = 60022, onClose = map action
       [([ssh_ExitMaster 60022], None), ([m_close mount_A], Some (Err ''first'')),
        ([m_close mount_B], Some (Err ''second''))]\<rparr> [] =
     ([Log InfoLevel ''Shutting down the host agent'', m_close mount_B, m_close mount_A,
       ssh_ExitMaster 60022],
      Some (MultiErr [Err ''second'', Err ''first'']))"
  using close_reverse_order_all_errors [where a = "\<lparr>LocalPort = 60022, onClose = []\<rparr>"
      and bs = "[([ssh_ExitMaster 60022], None), ([m_close mount_A], Some (Err ''first'')),
        ([m_close mount_B], Some (Err ''second''))]" and t = "[]"]
  by (simp add: combined_def parts_opt_def)

subsection \<open>Properties of the shutdown protocol\<close>

lemma killQEMU_calls:
  "killQEMU env t =
     (t @ Process_Kill #
        (case Kill_err env of None \<Rightarrow> [] | Some e \<Rightarrow> [Log WarnLevel ''failed to kill QEMU'']) @
        recv_qWaitCh #
        (case qWait_after_kill env of
           None \<Rightarrow> []
         | Some r \<Rightarrow> [Log InfoLevel ''QEMU has exited, after killing forcibly'', os_RemoveAll qemu_pid]),
      case qWait_after_kill env of None \<Rightarrow> Blocked | Some r \<Rightarrow> Returned r)"
  by (simp add: killQEMU_def split: option.splits)

lemma added_append [simp]: "added t (t @ new) = new"
  by (simp add: added_def)

lemma shutdownQEMU_graceful:
  assumes "NewSocketMonitor_err env = None" "Connect_err env = None"
    "SystemPowerdown_err env = None" "graceful env = ExitFirst r"
  shows "shutdownQEMU env d t =
     (t @ [Log InfoLevel ''Shutting down QEMU with ACPI'', qmp_NewSocketMonitor, qmp_Connect,
           Log InfoLevel ''Sending QMP system_powerdown command'', SystemPowerdown,
           select_qWaitCh_deadline d, Log InfoLevel ''QEMU has exited'', qmp_Disconnect],
      Returned r)"
  using assms by (simp add: shutdownQEMU_def deferring_def)

lemma shutdownQEMU_deadline:
  assumes "NewSocketMonitor_err env = None" "Connect_err env = None"
    "SystemPowerdown_err env = None" "graceful env = DeadlineFirst"
  shows "shutdownQEMU env d t =
     deferring [qmp_Disconnect]
       (killQEMU env
         (t @ [Log InfoLevel ''Shutting down QEMU with ACPI'', qmp_NewSocketMonitor, qmp_Connect,
           Log InfoLevel ''Sending QMP system_powerdown command'', SystemPowerdown,
           select_qWaitCh_deadline d,
           Log WarnLevel ''QEMU did not exit in %v, forcibly killing QEMU'']))"
  using assms by (simp add: shutdownQEMU_def)

text \<open>
  Claim C3, as the code has it. After the power-down command has been sent: if QEMU exits
  before the deadline, \<^verbatim>\<open>shutdownQEMU\<close> returns that exit result and does not call
  \<^verbatim>\<open>Kill\<close>; if the deadline comes first, it calls \<^verbatim>\<open>Kill\<close> exactly once, after the
  \<^verbatim>\<open>select\<close> on the deadline, and then waits for \<^verbatim>\<open>qWaitCh\<close>: when the exit result
  arrives it removes the pid file and returns that result, and as long as none arrives it
  neither returns nor removes the pid file.
\<close>

theorem shutdownQEMU_exit_or_kill:
  assumes "NewSocketMonitor_err env = None" "Connect_err env = None"
    "SystemPowerdown_err env = None"
  shows "(\<forall>r. graceful env = ExitFirst r \<longrightarrow>
            snd (shutdownQEMU env d t) = Returned r \<and>
            Process_Kill \<notin> set (added t (fst (shutdownQEMU env d t)))) \<and>
         (graceful env = DeadlineFirst \<longrightarrow>
            length (filter (\<lambda>x. x = Process_Kill) (added t (fst (shutdownQEMU env d t)))) = 1 \<and>
            select_qWaitCh_deadline d \<in>
              set (takeWhile (\<lambda>x. x \<noteq> Process_Kill) (added t (fst (shutdownQEMU env d t)))) \<and>
            (\<forall>r. qWait_after_kill env = Some r \<longrightarrow>
               snd (shutdownQEMU env d t) = Returned r \<and>
               os_RemoveAll qemu_pid \<in> set (added t (fst (shutdownQEMU env d t)))) \<and>
            (qWait_after_kill env = None \<longrightarrow>
               snd (shutdownQEMU env d t) = Blocked \<and>
               os_RemoveAll qemu_pid \<notin> set (added t (fst (shutdownQEMU env d t)))))"
proof (intro conjI allI impI)
  fix r assume "graceful env = ExitFirst r"
  from shutdownQEMU_graceful [OF assms this]
  show "snd (shutdownQEMU env d t) = Returned r"
    and "Process_Kill \<notin> set (added t (fst (shutdownQEMU env d t)))"
    by simp_all
next
  assume g: "graceful env = DeadlineFirst"
  note eq = shutdownQEMU_deadline [OF assms g] killQEMU_calls deferring_def
  show "length (filter (\<lambda>x. x = Process_Kill) (added t (fst (shutdownQEMU env d t)))) = 1"
    by (simp add: eq split: option.splits)
  show "select_qWaitCh_deadline d \<in>
      set (takeWhile (\<lambda>x. x \<noteq> Process_Kill) (added t (fst (shutdownQEMU env d t))))"
    by (simp add: eq split: option.splits)
  show "snd (shutdownQEMU env d t) = Returned r" if "qWait_after_kill env = Some r" for r
    using that by (simp add: eq)
  show "os_RemoveAll qemu_pid \<in> set (added t (fst (shutdownQEMU env d t)))"
    if "qWait_after_kill env = Some r" for r
    using that by (simp add: eq)
  show "snd (shutdownQEMU env d t) = Blocked" if "qWait_after_kill env = None"
    using that by (simp add: eq)
  show "os_RemoveAll qemu_pid \<notin> set (added t (fst (shutdownQEMU env d t)))"
    if "qWait_after_kill env = None"
    using that by (simp add: eq split: option.splits)
qed

text \<open>A guest that ignores the power-down and dies when killed.\<close>

theorem shutdownQEMU_exit_or_kill_witness:
  "graceful hung_guest_env = DeadlineFirst \<and>
   length (filter (\<lambda>x. x = Process_Kill) (fst (shutdownQEMU hung_guest_env (3 * Minute) []))) = 1 \<and>
   snd (shutdownQEMU hung_guest_env (3 * Minute) []) = Returned None \<and>
   os_RemoveAll qemu_pid \<in> set (fst (shutdownQEMU hung_guest_env (3 * Minute) []))"
  using shutdownQEMU_exit_or_kill [where env = hung_guest_env and d = "3 * Minute" and t = "[]"]
  by (simp add: hung_guest_env_def quiet_env_def added_def)

text \<open>
  Claim C3 as it is worded fails where the process does not exit after the kill either
  (here \<^verbatim>\<open>Kill\<close> itself fails): \<^verbatim>\<open>killQEMU\<close> waits on \<^verbatim>\<open>qWaitCh\<close> for ever and the
  pid file stays.
\<close>

theorem shutdownQEMU_never_exits_counterexample:
  "NewSocketMonitor_err unkillable_env = None \<and> Connect_err unkillable_env = None \<and>
   SystemPowerdown_err unkillable_env = None \<and> graceful unkillable_env = DeadlineFirst \<and>
   snd (shutdownQEMU unkillable_env (3 * Minute) []) = Blocked \<and>
   os_RemoveAll qemu_pid \<notin> set (fst (shutdownQEMU unkillable_env (3 * Minute) []))"
  by (simp add: unkillable_env_def quiet_env_def shutdownQEMU_def killQEMU_def deferring_def)

lemma shutdownQEMU_forced:
  assumes "NewSocketMonitor_err env \<noteq> None \<or> Connect_err env \<noteq> None \<or> SystemPowerdown_err env \<noteq> None"
  shows "shutdownQEMU env d t =
     (if NewSocketMonitor_err env \<noteq> None then
        killQEMU env
          (t @ [Log InfoLevel ''Shutting down QEMU with ACPI'', qmp_NewSocketMonitor,
                Log WarnLevel ''failed to open the QMP socket %q, forcibly killing QEMU''])
      else if Connect_err env \<noteq> None then
        killQEMU env
          (t @ [Log InfoLevel ''Shutting down QEMU with ACPI'', qmp_NewSocketMonitor, qmp_Connect,
                Log WarnLevel ''failed to connect to the QMP socket %q, forcibly killing QEMU''])
      else
        deferring [qmp_Disconnect]
          (killQEMU env
            (t @ [Log InfoLevel ''Shutting down QEMU with ACPI'', qmp_NewSocketMonitor, qmp_Connect,
                  Log InfoLevel ''Sending QMP system_powerdown command'', SystemPowerdown,
                  Log WarnLevel
                    ''failed to send system_powerdown command via the QMP socket %q, forcibly killing QEMU''])))"
  using assms by (auto simp: shutdownQEMU_def)

text \<open>
  Claim C4. If opening the QMP socket fails, or the connection fails, or sending the
  power-down command fails, \<^verbatim>\<open>shutdownQEMU\<close> goes straight to \<^verbatim>\<open>killQEMU\<close>: it never
  waits on the deadline, the only calls before \<^verbatim>\<open>Kill\<close> other than log lines are the
  QMP calls up to the failing one, and its result is that of \<^verbatim>\<open>killQEMU\<close>.
\<close>

theorem shutdownQEMU_failure_kills_directly:
  assumes "NewSocketMonitor_err env \<noteq> None \<or> Connect_err env \<noteq> None \<or> SystemPowerdown_err env \<noteq> None"
  shows "(\<forall>d'. select_qWaitCh_deadline d' \<notin> set (added t (fst (shutdownQEMU env d t)))) \<and>
         filter (\<lambda>x. \<not> is_Log x)
            (takeWhile (\<lambda>x. x \<noteq> Process_Kill) (added t (fst (shutdownQEMU env d t)))) =
           (if NewSocketMonitor_err env \<noteq> None then [qmp_NewSocketMonitor]
            else if Connect_err env \<noteq> None then [qmp_NewSocketMonitor, qmp_Connect]
            else [qmp_NewSocketMonitor, qmp_Connect, SystemPowerdown]) \<and>
         Process_Kill \<in> set (added t (fst (shutdownQEMU env d t))) \<and>
         snd (shutdownQEMU env d t) = snd (killQEMU env t)"
  unfolding shutdownQEMU_forced [OF assms]
  by (simp add: killQEMU_calls deferring_def split: option.splits)

text \<open>No QMP socket: the first call after the failed opening is the kill.\<close>

theorem shutdownQEMU_failure_kills_directly_witness:
  "NewSocketMonitor_err no_qmp_env \<noteq> None \<and>
   filter (\<lambda>x. \<not> is_Log x) (fst (shutdownQEMU no_qmp_env (3 * Minute) [])) =
     [qmp_NewSocketMonitor, Process_Kill, recv_qWaitCh, os_RemoveAll qemu_pid] \<and>
   snd (shutdownQEMU no_qmp_env (3 * Minute) []) = Returned None"
  using shutdownQEMU_failure_kills_directly [where env = no_qmp_env and d = "3 * Minute" and t = "[]"]
  by (simp add: no_qmp_env_def quiet_env_def shutdownQEMU_def killQEMU_def)

subsection \<open>Properties of the watcher\<close>

lemma forwards_append [simp]: "forwards port (t @ s) = forwards port t @ forwards port s"
  by (simp add: forwards_def)

lemma processGuestAgentEvents_calls:
  "\<exists>new. fst (processGuestAgentEvents c t) = t @ new \<and> forwards port new = [] \<and>
     os_RemoveAll ga_sock \<notin> set new"
  by (auto simp: processGuestAgentEvents_def forwards_def onEvent_def Let_def
      split: option.splits outcome.splits)

lemma stop_forwarding_calls:
  "\<exists>new. stop_forwarding port c t = t @ new \<and> forwards port new = []"
  by (simp add: stop_forwarding_def forwardSSH_def forwards_def Let_def split: option.splits)

lemma reconnect_reachable:
  "probe_NewClient_err c = None \<Longrightarrow> probe_Info_err c = None \<Longrightarrow>
   reconnect port c t = t @ [NewGuestAgentClient, client_Info]"
  by (simp add: reconnect_def isGuestAgentSocketAccessible_def)

lemma reconnect_unreachable:
  "probe_NewClient_err c \<noteq> None \<or> probe_Info_err c \<noteq> None \<Longrightarrow>
   reconnect port c t =
     t @ NewGuestAgentClient # (if probe_NewClient_err c = None then [client_Info] else []) @
       os_RemoveAll ga_sock #
       (case RemoveAll_err c of
          None \<Rightarrow> []
        | Some err \<Rightarrow> [Log WarnLevel ''failed to clean up %q (host) before setting up forwarding'']) @
       Log InfoLevel ''Forwarding %q (guest) to %q (host)'' #
       ssh_O ''forward'' port #
       (case forward_err c of
          None \<Rightarrow> []
        | Some err \<Rightarrow> [Log WarnLevel ''failed to setting up forward from %q (guest) to %q (host)''])"
  by (auto simp: reconnect_def isGuestAgentSocketAccessible_def forwardSSH_def Let_def
      split: option.splits)

lemma reconnect_calls: "\<exists>new. reconnect port c t = t @ new"
proof (cases "probe_NewClient_err c = None \<and> probe_Info_err c = None")
  case True
  then show ?thesis by (simp add: reconnect_reachable)
next
  case False
  then have "probe_NewClient_err c \<noteq> None \<or> probe_Info_err c \<noteq> None" by simp
  from reconnect_unreachable [OF this] show ?thesis by simp
qed

lemma watch_cycle_calls:
  "\<exists>new. fst (watch_cycle port c t) = reconnect port c t @ new \<and> forwards port new = []"
proof -
  obtain new where p: "fst (processGuestAgentEvents c (reconnect port c t)) = reconnect port c t @ new"
    "forwards port new = []"
    using processGuestAgentEvents_calls by blast
  obtain t1 r where pr: "processGuestAgentEvents c (reconnect port c t) = (t1, r)"
    by (cases "processGuestAgentEvents c (reconnect port c t)")
  with p have t1: "t1 = reconnect port c t @ new" by simp
  show ?thesis
  proof (cases r)
    case Blocked
    with pr t1 p(2) show ?thesis by (simp add: watch_cycle_def)
  next
    case (Returned x)
    let ?t3 = "t1 @ (case x of None \<Rightarrow> []
        | Some err \<Rightarrow> [Log WarnLevel ''connection to the guest agent was closed unexpectedly'']) @
        [select_ctxDone_After]"
    have f3: "forwards port (added (reconnect port c t) ?t3) = []"
      using p(2) by (simp add: t1 forwards_def split: option.splits)
    obtain new' where s: "stop_forwarding port c ?t3 = ?t3 @ new'" "forwards port new' = []"
      using stop_forwarding_calls by blast
    show ?thesis
    proof (cases "ctx_Done c")
      case True
      with pr Returned s p(2) show ?thesis
        by (simp add: watch_cycle_def t1 forwards_def split: option.splits)
    next
      case False
      with pr Returned p(2) show ?thesis
        by (simp add: watch_cycle_def t1 forwards_def split: option.splits)
    qed
  qed
qed

lemma watch_cycle_added:
  "\<exists>new. fst (watch_cycle port c t) = t @ new \<and>
     forwards port new =
       (if probe_NewClient_err c = None \<and> probe_Info_err c = None then []
        else [ssh_O ''forward'' port])"
proof -
  obtain new where w: "fst (watch_cycle port c t) = reconnect port c t @ new"
    "forwards port new = []"
    using watch_cycle_calls by blast
  show ?thesis
  proof (cases "probe_NewClient_err c = None \<and> probe_Info_err c = None")
    case True
    then show ?thesis
      using w by (simp add: reconnect_reachable forwards_def)
  next
    case False
    then have u: "probe_NewClient_err c \<noteq> None \<or> probe_Info_err c \<noteq> None" by simp
    show ?thesis
      using w False
      by (simp add: reconnect_unreachable [OF u] forwards_def split: option.splits)
  qed
qed

text \<open>
  Over the whole loop: the forward commands are at most as many as the iterations whose
  probe fails.
\<close>

lemma watchGuestAgentEvents_forwards:
  "\<exists>new. fst (watchGuestAgentEvents port cs t) = t @ new \<and>
     length (forwards port new) \<le>
       length (filter (\<lambda>c. probe_NewClient_err c \<noteq> None \<or> probe_Info_err c \<noteq> None) cs)"
proof (induction cs arbitrary: t)
  case Nil
  show ?case by (simp add: forwards_def)
next
  case (Cons c cs)
  obtain n1 where 1: "fst (watch_cycle port c t) = t @ n1"
    "forwards port n1 =
       (if probe_NewClient_err c = None \<and> probe_Info_err c = None then []
        else [ssh_O ''forward'' port])"
    using watch_cycle_added by blast
  obtain t1 e where wc: "watch_cycle port c t = (t1, e)" by (cases "watch_cycle port c t")
  with 1 have t1: "t1 = t @ n1" by simp
  show ?case
  proof (cases e)
    case NextCycle
    from Cons.IH [of t1] obtain n2 where 2: "fst (watchGuestAgentEvents port cs t1) = t1 @ n2"
      "length (forwards port n2) \<le>
        length (filter (\<lambda>c. probe_NewClient_err c \<noteq> None \<or> probe_Info_err c \<noteq> None) cs)"
      by blast
    show ?thesis
      by (rule exI [of _ "n1 @ n2"]) (use wc NextCycle 1(2) 2 t1 in auto)
  next
    case Stopped
    show ?thesis
      by (rule exI [of _ n1]) (use wc Stopped 1(2) t1 in auto)
  next
    case InEvents
    show ?thesis
      by (rule exI [of _ n1]) (use wc InEvents 1(2) t1 in auto)
  qed
qed

text \<open>
  Claim C8. In every iteration of the loop of the watcher, started after any calls \<open>t\<close>:
  if the probe succeeds (the client is created and \<^verbatim>\<open>Info\<close> returns no error) the
  iteration runs no forward command; if the probe fails it runs exactly one, and the
  removal of the local socket file comes before it. The next forward can only come from
  the next iteration (\<open>watchGuestAgentEvents_forwards\<close> counts them over the loop).
\<close>

theorem watch_cycle_forwards_once_when_unreachable:
  "(probe_NewClient_err c = None \<and> probe_Info_err c = None \<longrightarrow>
      forwards port (added t (fst (watch_cycle port c t))) = []) \<and>
   (probe_NewClient_err c \<noteq> None \<or> probe_Info_err c \<noteq> None \<longrightarrow>
      forwards port (added t (fst (watch_cycle port c t))) = [ssh_O ''forward'' port] \<and>
      os_RemoveAll ga_sock \<in>
        set (takeWhile (\<lambda>x. x \<noteq> ssh_O ''forward'' port) (added t (fst (watch_cycle port c t)))))"
proof -
  obtain new where w: "fst (watch_cycle port c t) = reconnect port c t @ new"
    "forwards port new = []"
    using watch_cycle_calls by blast
  show ?thesis
  proof (intro conjI impI)
    assume "probe_NewClient_err c = None \<and> probe_Info_err c = None"
    then show "forwards port (added t (fst (watch_cycle port c t))) = []"
      using w by (simp add: reconnect_reachable forwards_def)
  next
    assume u: "probe_NewClient_err c \<noteq> None \<or> probe_Info_err c \<noteq> None"
    show "forwards port (added t (fst (watch_cycle port c t))) = [ssh_O ''forward'' port]"
      using w by (simp add: reconnect_unreachable [OF u] forwards_def split: option.splits)
    show "os_RemoveAll ga_sock \<in>
        set (takeWhile (\<lambda>x. x \<noteq> ssh_O ''forward'' port) (added t (fst (watch_cycle port c t))))"
      using w by (simp add: reconnect_unreachable [OF u] split: option.splits)
  qed
qed

text \<open>An iteration with a reachable socket and one with an unreachable socket.\<close>

theorem watch_cycle_forwards_witness:
  "forwards 60022 (fst (watch_cycle 60022 reachable_cycle [])) = [] \<and>
   forwards 60022 (fst (watch_cycle 60022 unreachable_cycle [])) = [ssh_O ''forward'' 60022] \<and>
   os_RemoveAll ga_sock \<in> set (takeWhile (\<lambda>x. x \<noteq> ssh_O ''forward'' 60022)
     (fst (watch_cycle 60022 unreachable_cycle [])))"
  using watch_cycle_forwards_once_when_unreachable
      [where c = reachable_cycle and port = 60022 and t = "[]"]
    watch_cycle_forwards_once_when_unreachable
      [where c = unreachable_cycle and port = 60022 and t = "[]"]
  by (simp add: reachable_cycle_def unreachable_cycle_def added_def)

text \<open>
  Claim C10. \<^verbatim>\<open>processGuestAgentEvents\<close> never returns nil: when the subscription
  ends without an error it returns \<^verbatim>\<open>io.EOF\<close>. So in every iteration in which it
  returns, the watcher logs the warning that the connection was closed unexpectedly.
\<close>

theorem processGuestAgentEvents_never_nil:
  "snd (processGuestAgentEvents c t) \<noteq> Returned None \<and>
   (NewClient_err c = None \<and> Info_err c = None \<and> Events_ret c = Returned None \<longrightarrow>
      snd (processGuestAgentEvents c t) = Returned (Some EOF)) \<and>
   (snd (watch_cycle port c t) \<noteq> InEvents \<longrightarrow>
      Log WarnLevel ''connection to the guest agent was closed unexpectedly''
        \<in> set (added t (fst (watch_cycle port c t))))"
proof (intro conjI impI)
  show nn: "snd (processGuestAgentEvents c t) \<noteq> Returned None" for t
    by (simp add: processGuestAgentEvents_def Let_def split: option.splits outcome.splits)
  show "snd (processGuestAgentEvents c t) = Returned (Some EOF)"
    if "NewClient_err c = None \<and> Info_err c = None \<and> Events_ret c = Returned None"
    using that by (simp add: processGuestAgentEvents_def)
  assume ne: "snd (watch_cycle port c t) \<noteq> InEvents"
  obtain t1 r where pr: "processGuestAgentEvents c (reconnect port c t) = (t1, r)"
    by (cases "processGuestAgentEvents c (reconnect port c t)")
  obtain new where p: "t1 = reconnect port c t @ new"
    using processGuestAgentEvents_calls [of c "reconnect port c t" port] pr by auto
  from ne pr obtain x where r: "r = Returned x"
    by (cases r) (simp_all add: watch_cycle_def)
  from nn [of "reconnect port c t"] pr r obtain e where x: "x = Some e"
    by (cases x) simp_all
  obtain s where s: "stop_forwarding port c
      (t1 @ [Log WarnLevel ''connection to the guest agent was closed unexpectedly'', select_ctxDone_After])
      = (t1 @ [Log WarnLevel ''connection to the guest agent was closed unexpectedly'', select_ctxDone_After]) @ s"
    using stop_forwarding_calls by blast
  obtain new0 where rc: "reconnect port c t = t @ new0"
    using reconnect_calls by blast
  show "Log WarnLevel ''connection to the guest agent was closed unexpectedly''
        \<in> set (added t (fst (watch_cycle port c t)))"
    using pr r x s by (simp add: watch_cycle_def p rc Let_def)
qed

text \<open>A subscription that ends normally: the result is \<^verbatim>\<open>io.EOF\<close> and the warning is logged.\<close>

theorem processGuestAgentEvents_never_nil_witness:
  "NewClient_err reachable_cycle = None \<and> Info_err reachable_cycle = None \<and>
   Events_ret reachable_cycle = Returned None \<and>
   snd (processGuestAgentEvents reachable_cycle []) = Returned (Some EOF) \<and>
   snd (watch_cycle 60022 reachable_cycle []) = NextCycle \<and>
   Log WarnLevel ''connection to the guest agent was closed unexpectedly''
     \<in> set (fst (watch_cycle 60022 reachable_cycle []))"
proof -
  have h: "NewClient_err reachable_cycle = None \<and> Info_err reachable_cycle = None \<and>
      Events_ret reachable_cycle = Returned None"
    by (simp add: reachable_cycle_def)
  have n: "snd (watch_cycle 60022 reachable_cycle []) = NextCycle"
    by (simp add: reachable_cycle_def watch_cycle_def processGuestAgentEvents_def)
  from processGuestAgentEvents_never_nil [where c = reachable_cycle and port = 60022 and t = "[]"]
    h n show ?thesis
    by (simp add: added_def)
qed

subsection \<open>Properties of \<^verbatim>\<open>Run\<close>\<close>

lemma encoded_append [simp]: "encoded (t @ s) = encoded t @ encoded s"
  by (induction t rule: encoded.induct) simp_all

lemma unmounts_append [simp]: "unmounts (t @ s) = unmounts t @ unmounts s"
  by (induction t rule: unmounts.induct) simp_all

lemma encoded_map_Log [simp]: "encoded (map (\<lambda>x. Log l (f x)) xs) = []"
  by (induction xs) simp_all

lemma unmounts_map_Log [simp]: "unmounts (map (\<lambda>x. Log l (f x)) xs) = []"
  by (induction xs) simp_all

lemma encoded_map_m_close [simp]: "encoded (map m_close ms) = []"
  by (induction ms) simp_all

lemma unmounts_map_m_close [simp]: "unmounts (map m_close ms) = ms"
  by (induction ms) simp_all

lemma set_encoded: "set (encoded t) = {ev. Encode ev \<in> set t}"
  by (induction t rule: encoded.induct) auto

lemma unmounts_Nil_iff: "unmounts t = [] \<longleftrightarrow> (\<forall>m. m_close m \<notin> set t)"
  by (induction t rule: unmounts.induct) auto

lemma unmount_loop_calls: "fst (unmount_loop ms acc) = map m_close ms"
proof (induction ms arbitrary: acc)
  case Nil
  show ?case by simp
next
  case (Cons m ms)
  let ?acc = "case mount_close m of None \<Rightarrow> acc
    | Some unmountErr \<Rightarrow> Some (multierror_Append acc unmountErr)"
  obtain new r where u: "unmount_loop ms ?acc = (new, r)"
    by (cases "unmount_loop ms ?acc")
  with Cons.IH [of ?acc] have "new = map m_close ms" by simp
  with u show ?case by simp
qed

text \<open>An event is stamped and handed to the encoder.\<close>

lemma emitEvent_calls:
  "emitEvent env ev t =
     t @ Encode (if Time ev = ZeroTime then ev\<lparr>Time := At (time_Now env t)\<rparr> else ev) #
       (case Encode_err env (if Time ev = ZeroTime then ev\<lparr>Time := At (time_Now env t)\<rparr> else ev) of
          None \<Rightarrow> [] | Some err \<Rightarrow> [Log ErrorLevel ''failed to emit an event''])"
  by (simp add: emitEvent_def Let_def)


lemma unmounts_emitEvent [simp]: "unmounts (emitEvent env ev t) = unmounts t"
  by (simp add: emitEvent_calls split: option.splits)

text \<open>The deferred calls.\<close>

lemma logPipeRoutine_calls:
  "\<exists>new. fst (logPipeRoutine env w p t) = t @ new \<and> (\<forall>x\<in>set new. deferred_call x) \<and>
     encoded new = [] \<and> snd (logPipeRoutine env w p t) = (w \<or> pipe_eof env p)"
  by (auto simp: logPipeRoutine_def)

lemma emit_abortEv_calls:
  "\<exists>ev x. emitEvent env abortEv t = t @ Encode ev # x \<and> Aborted (Status ev) \<and>
     \<not> Running (Status ev) \<and> encoded x = [] \<and> (\<forall>y\<in>set x. deferred_call y)"
  by (simp add: emitEvent_calls abortEv_def zero_Status_def split: option.splits)

lemma run_deferred_all:
  "\<exists>new. fst (run_deferred env w all_deferred t) = t @ new \<and> (\<forall>x\<in>set new. deferred_call x) \<and>
     snd (run_deferred env w all_deferred t) =
       (w \<or> pipe_eof env qStderr \<and> pipe_eof env qStdout) \<and>
     (if w \<or> pipe_eof env qStderr \<and> pipe_eof env qStdout
      then \<exists>ev. encoded new = [ev] \<and> Aborted (Status ev) else encoded new = [])"
proof -
  obtain n1 where 1: "fst (logPipeRoutine env w qStderr t) = t @ n1" "\<forall>x\<in>set n1. deferred_call x"
    "encoded n1 = []" "snd (logPipeRoutine env w qStderr t) = (w \<or> pipe_eof env qStderr)"
    using logPipeRoutine_calls by blast
  obtain n2 where 2: "fst (logPipeRoutine env w qStdout (t @ n1)) = (t @ n1) @ n2"
    "\<forall>x\<in>set n2. deferred_call x"
    "encoded n2 = []" "snd (logPipeRoutine env w qStdout (t @ n1)) = (w \<or> pipe_eof env qStdout)"
    using logPipeRoutine_calls by blast
  obtain ev x where 3: "emitEvent env abortEv ((t @ n1) @ n2) = ((t @ n1) @ n2) @ Encode ev # x"
    "Aborted (Status ev)" "\<not> Running (Status ev)" "encoded x = []" "\<forall>y\<in>set x. deferred_call y"
    using emit_abortEv_calls [of env "(t @ n1) @ n2"] by auto
  obtain a1 b1 where l1: "logPipeRoutine env w qStderr t = (a1, b1)"
    by (cases "logPipeRoutine env w qStderr t")
  obtain a2 b2 where l2: "logPipeRoutine env w qStdout (t @ n1) = (a2, b2)"
    by (cases "logPipeRoutine env w qStdout (t @ n1)")
  from 1 2 3 l1 l2 show ?thesis
    by (cases b1; cases b2) (auto simp: all_deferred_def)
qed

lemma run_deferred_stdout:
  "\<exists>new. fst (run_deferred env w [defer_logPipeRoutine qStdout, defer_abortEv] t) = t @ new \<and>
     (\<forall>x\<in>set new. deferred_call x) \<and>
     snd (run_deferred env w [defer_logPipeRoutine qStdout, defer_abortEv] t) =
       (w \<or> pipe_eof env qStdout) \<and>
     (if w \<or> pipe_eof env qStdout
      then \<exists>ev. encoded new = [ev] \<and> Aborted (Status ev) else encoded new = [])"
proof -
  obtain n2 where 2: "fst (logPipeRoutine env w qStdout t) = t @ n2"
    "\<forall>x\<in>set n2. deferred_call x"
    "encoded n2 = []" "snd (logPipeRoutine env w qStdout t) = (w \<or> pipe_eof env qStdout)"
    using logPipeRoutine_calls by blast
  obtain ev x where 3: "emitEvent env abortEv (t @ n2) = (t @ n2) @ Encode ev # x"
    "Aborted (Status ev)" "\<not> Running (Status ev)" "encoded x = []" "\<forall>y\<in>set x. deferred_call y"
    using emit_abortEv_calls [of env "t @ n2"] by auto
  obtain a2 b2 where l2: "logPipeRoutine env w qStdout t = (a2, b2)"
    by (cases "logPipeRoutine env w qStdout t")
  from 2 3 l2 show ?thesis
    by (cases b2) auto
qed

lemma run_deferred_abort:
  "\<exists>new. fst (run_deferred env w [defer_abortEv] t) = t @ new \<and>
     (\<forall>x\<in>set new. deferred_call x) \<and> snd (run_deferred env w [defer_abortEv] t) \<and>
     (\<exists>ev. encoded new = [ev] \<and> Aborted (Status ev))"
proof -
  obtain ev x where 3: "emitEvent env abortEv t = t @ Encode ev # x"
    "Aborted (Status ev)" "\<not> Running (Status ev)" "encoded x = []" "\<forall>y\<in>set x. deferred_call y"
    using emit_abortEv_calls [of env t] by auto
  then show ?thesis by auto
qed

text \<open>The start of QEMU.\<close>

lemma Run_start_ok:
  "StdoutPipe_err env = None \<Longrightarrow> StderrPipe_err env = None \<Longrightarrow> Start_err env = None \<Longrightarrow>
   Run_start env = (start_calls, None, all_deferred)"
  by (simp add: Run_start_def start_calls_def all_deferred_def)


text \<open>The teardown stack that \<^verbatim>\<open>close\<close> finds after an interrupt.\<close>

lemma onClose_at_select:
  "onClose a = [] \<Longrightarrow>
   onClose (at_select env st a) =
     take (registered env) [exit_master env a, unmount_all (fst (setupMounts_result env))]"
  by (simp add: at_select_def routines_task_def startHostAgentRoutines_def Let_def
      split: prod.splits)

lemma exit_master_calls:
  "exit_master env a t =
     (Log DebugLevel ''shutting down the SSH master'' # ssh_ExitMaster (LocalPort a) #
      (case ExitMaster_err env of
         None \<Rightarrow> []
       | Some e \<Rightarrow> [Log WarnLevel ''failed to exit SSH master'']),
      None)"
  by (simp add: exit_master_def)

lemma close_two_registered:
  assumes "onClose a = []" "2 \<le> registered env"
  shows "fst (close (at_select env st a) t) =
     t @ Log InfoLevel ''Shutting down the host agent'' #
       map m_close (fst (setupMounts_result env)) @
       Log DebugLevel ''shutting down the SSH master'' # ssh_ExitMaster (LocalPort a) #
       (case ExitMaster_err env of
          None \<Rightarrow> []
        | Some e \<Rightarrow> [Log WarnLevel ''failed to exit SSH master''])"
proof -
  from assms have oc: "onClose (at_select env st a) =
      [exit_master env a, unmount_all (fst (setupMounts_result env))]"
    by (simp add: onClose_at_select)
  obtain r where u: "unmount_loop (fst (setupMounts_result env)) None =
      (map m_close (fst (setupMounts_result env)), r)"
    using unmount_loop_calls [of "fst (setupMounts_result env)" None]
    by (cases "unmount_loop (fst (setupMounts_result env)) None") simp
  show ?thesis
    by (simp add: close_def oc numeral_2_eq_2 unmount_all_def u exit_master_calls
        split: option.splits)
qed

lemma close_at_select_calls:
  assumes "onClose a = []"
  shows "\<exists>new. fst (close (at_select env st a) t) = t @ new \<and> encoded new = [] \<and>
     Log InfoLevel ''Shutting down QEMU with ACPI'' \<notin> set new"
proof -
  obtain r where u: "unmount_loop (fst (setupMounts_result env)) None =
      (map m_close (fst (setupMounts_result env)), r)"
    using unmount_loop_calls [of "fst (setupMounts_result env)" None]
    by (cases "unmount_loop (fst (setupMounts_result env)) None") simp
  consider "registered env = 0" | "registered env = 1" | "2 \<le> registered env"
    by linarith
  then show ?thesis
  proof cases
    case 1
    with assms show ?thesis by (simp add: close_def onClose_at_select)
  next
    case 2
    with assms show ?thesis
      by (simp add: close_def onClose_at_select exit_master_calls split: option.splits)
  next
    case 3
    with assms show ?thesis
      by (auto simp: close_two_registered split: option.splits)
  qed
qed

text \<open>The shutdown protocol starts with its log line and the opening of the QMP socket.\<close>

lemma killQEMU_quiet:
  "\<exists>new. fst (killQEMU env t) = t @ new \<and> encoded new = [] \<and> unmounts new = []"
  by (simp add: killQEMU_calls split: option.splits)

lemma shutdownQEMU_calls:
  "\<exists>new. fst (shutdownQEMU env d t) =
      t @ Log InfoLevel ''Shutting down QEMU with ACPI'' # qmp_NewSocketMonitor # new \<and>
     encoded new = [] \<and> unmounts new = []"
  by (simp add: shutdownQEMU_def killQEMU_calls deferring_def Let_def
      split: option.splits race.splits)

lemma deferred_call_unmounts: "\<forall>x\<in>set new. deferred_call x \<Longrightarrow> unmounts new = []"
  by (induction new rule: unmounts.induct) auto

lemma run_deferred_stacks:
  assumes "ds \<in> deferred_stacks"
  shows "\<exists>new. fst (run_deferred env w ds t) = t @ new \<and> (\<forall>x\<in>set new. deferred_call x) \<and>
     (if snd (run_deferred env w ds t)
      then \<exists>ev. encoded new = [ev] \<and> Aborted (Status ev) else encoded new = [])"
proof -
  from assms consider "ds = [defer_abortEv]" | "ds = [defer_logPipeRoutine qStdout, defer_abortEv]"
    | "ds = all_deferred"
    by (auto simp: deferred_stacks_def)
  then show ?thesis
  proof cases
    case 1
    with run_deferred_abort [of env w t] show ?thesis by auto
  next
    case 2
    with run_deferred_stdout [of env w t] show ?thesis by (auto split: if_splits)
  next
    case 3
    with run_deferred_all [of env w t] show ?thesis by (auto split: if_splits)
  qed
qed


lemma Run_boot_ok:
  "0 \<le> LocalPort a \<Longrightarrow>
   \<exists>x. Run_boot env a t =
       (t @ Encode \<lparr>Time = At (time_Now env t), Status = stBase a\<rparr> # x @ [ssh_keygen_R (LocalPort a)],
        case keygen_err env of None \<Rightarrow> None | Some err \<Rightarrow> Some (Wrapf err ''failed to run %v: %q'')) \<and>
     encoded x = [] \<and> unmounts x = [] \<and> set x \<subseteq> {Log ErrorLevel ''failed to emit an event''}"
  by (simp add: Run_boot_def emitEvent_calls Let_def split: option.splits)

text \<open>The main loop.\<close>

lemma Run_loop_QExit:
  "main_select env = QExit r \<Longrightarrow>
   Run_loop env a t = (t @ [select_sigintCh_qWaitCh, Log InfoLevel ''QEMU has exited''], Returned r)"
  by (simp add: Run_loop_def)

lemma Run_loop_NoSignal:
  "main_select env = NoSignal \<Longrightarrow> Run_loop env a t = (t @ [select_sigintCh_qWaitCh], Blocked)"
  by (simp add: Run_loop_def)

lemma Run_loop_Sigint:
  assumes "main_select env = Sigint" "onClose a = []" "2 \<le> registered env"
  shows "\<exists>w rest. fst (Run_loop env (at_select env st a) t) =
      (t @ [select_sigintCh_qWaitCh,
            Log InfoLevel ''Received SIGINT, shutting down the host agent'',
            Log InfoLevel ''Shutting down the host agent'']) @
      map m_close (fst (setupMounts_result env)) @
      Log DebugLevel ''shutting down the SSH master'' # ssh_ExitMaster (LocalPort a) #
      w @ Log InfoLevel ''Shutting down QEMU with ACPI'' # qmp_NewSocketMonitor # rest \<and>
     unmounts w = [] \<and> Log InfoLevel ''Shutting down QEMU with ACPI'' \<notin> set w \<and>
     unmounts rest = [] \<and> encoded rest = []"
proof -
  let ?t2 = "t @ [select_sigintCh_qWaitCh,
      Log InfoLevel ''Received SIGINT, shutting down the host agent'']"
  obtain t3 closeErr where c: "close (at_select env st a) ?t2 = (t3, closeErr)"
    by (cases "close (at_select env st a) ?t2")
  with close_two_registered [OF assms(2,3), of st ?t2]
  have t3: "t3 = ?t2 @ Log InfoLevel ''Shutting down the host agent'' #
       map m_close (fst (setupMounts_result env)) @
       Log DebugLevel ''shutting down the SSH master'' # ssh_ExitMaster (LocalPort a) #
       (case ExitMaster_err env of
          None \<Rightarrow> []
        | Some e \<Rightarrow> [Log WarnLevel ''failed to exit SSH master''])"
    by simp
  let ?t4 = "t3 @ (case closeErr of None \<Rightarrow> []
      | Some e \<Rightarrow> [Log WarnLevel ''an error during shutting down the host agent''])"
  obtain rest where s: "fst (shutdownQEMU env (3 * Minute) ?t4) =
      ?t4 @ Log InfoLevel ''Shutting down QEMU with ACPI'' # qmp_NewSocketMonitor # rest"
    "encoded rest = []" "unmounts rest = []"
    using shutdownQEMU_calls by blast
  have l: "fst (Run_loop env (at_select env st a) t) = fst (shutdownQEMU env (3 * Minute) ?t4)"
    using assms(1) c by (simp add: Run_loop_def split: option.splits)
  let ?w = "(case ExitMaster_err env of
        None \<Rightarrow> []
      | Some e \<Rightarrow> [Log WarnLevel ''failed to exit SSH master'']) @
     (case closeErr of
        None \<Rightarrow> []
      | Some e \<Rightarrow> [Log WarnLevel ''an error during shutting down the host agent''])"
  have e1: "fst (Run_loop env (at_select env st a) t) =
      ?t4 @ Log InfoLevel ''Shutting down QEMU with ACPI'' # qmp_NewSocketMonitor # rest"
    using l s(1) by simp
  show ?thesis
    by (intro exI [of _ ?w] exI [of _ rest])
       (simp add: e1 t3 s(2,3) split: option.splits)
qed

lemma Run_loop_calls:
  assumes "onClose a = []"
  shows "\<exists>new. fst (Run_loop env (at_select env st a) t) = t @ new \<and> encoded new = []"
proof (cases "main_select env")
  case Sigint
  let ?t2 = "t @ [select_sigintCh_qWaitCh,
      Log InfoLevel ''Received SIGINT, shutting down the host agent'']"
  obtain t3 closeErr where c: "close (at_select env st a) ?t2 = (t3, closeErr)"
    by (cases "close (at_select env st a) ?t2")
  obtain n1 where t3: "t3 = ?t2 @ n1" "encoded n1 = []"
    using close_at_select_calls [OF assms, of env st ?t2] c by auto
  let ?t4 = "t3 @ (case closeErr of None \<Rightarrow> []
      | Some e \<Rightarrow> [Log WarnLevel ''an error during shutting down the host agent''])"
  obtain rest where s: "fst (shutdownQEMU env (3 * Minute) ?t4) =
      ?t4 @ Log InfoLevel ''Shutting down QEMU with ACPI'' # qmp_NewSocketMonitor # rest"
    "encoded rest = []"
    using shutdownQEMU_calls by blast
  have l: "fst (Run_loop env (at_select env st a) t) = fst (shutdownQEMU env (3 * Minute) ?t4)"
    using Sigint c by (simp add: Run_loop_def split: option.splits)
  have e1: "fst (Run_loop env (at_select env st a) t) =
      ?t4 @ Log InfoLevel ''Shutting down QEMU with ACPI'' # qmp_NewSocketMonitor # rest"
    using l s(1) by simp
  show ?thesis
    by (simp add: e1 t3 s(2) split: option.splits)
next
  case (QExit r)
  then show ?thesis by (simp add: Run_loop_QExit)
next
  case NoSignal
  then show ?thesis by (simp add: Run_loop_NoSignal)
qed




lemma Run_body_keygen_ok:
  assumes "StdoutPipe_err env = None" "StderrPipe_err env = None" "Start_err env = None"
    "0 \<le> LocalPort a" "keygen_err env = None" "onClose a = []"
  shows "\<exists>x new r. Run_body env a =
      ((start_calls @
         Encode \<lparr>Time = At (time_Now env start_calls), Status = stBase a\<rparr> # x @
         [ssh_keygen_R (LocalPort a), go_startHostAgentRoutines]) @ new,
       r, all_deferred, True) \<and>
     Run_loop env (at_select env (stBase a) a)
       (start_calls @
         Encode \<lparr>Time = At (time_Now env start_calls), Status = stBase a\<rparr> # x @
         [ssh_keygen_R (LocalPort a), go_startHostAgentRoutines]) =
      ((start_calls @
         Encode \<lparr>Time = At (time_Now env start_calls), Status = stBase a\<rparr> # x @
         [ssh_keygen_R (LocalPort a), go_startHostAgentRoutines]) @ new, r) \<and>
     encoded x = [] \<and> encoded new = [] \<and>
     set x \<subseteq> {Log ErrorLevel ''failed to emit an event''}"
proof -
  obtain x where b: "Run_boot env a start_calls =
       (start_calls @ Encode \<lparr>Time = At (time_Now env start_calls), Status = stBase a\<rparr> # x @
          [ssh_keygen_R (LocalPort a)],
        case keygen_err env of None \<Rightarrow> None | Some err \<Rightarrow> Some (Wrapf err ''failed to run %v: %q''))"
    "encoded x = []" "unmounts x = []" "set x \<subseteq> {Log ErrorLevel ''failed to emit an event''}"
    using Run_boot_ok [OF assms(4), of env start_calls] by blast
  let ?t = "start_calls @
      Encode \<lparr>Time = At (time_Now env start_calls), Status = stBase a\<rparr> # x @
      [ssh_keygen_R (LocalPort a), go_startHostAgentRoutines]"
  obtain t' r where l: "Run_loop env (at_select env (stBase a) a) ?t = (t', r)"
    by (cases "Run_loop env (at_select env (stBase a) a) ?t")
  obtain new where n: "t' = ?t @ new" "encoded new = []"
    using Run_loop_calls [OF assms(6), of env "stBase a" ?t] l by auto
  have rb: "Run_body env a = (t', r, all_deferred, True)"
    using assms b(1) l by (simp add: Run_body_def Run_start_ok)
  show ?thesis
    by (intro exI [of _ x] exI [of _ new] exI [of _ r])
       (simp add: rb l n b(2,4))
qed


lemma Run_returned:
  assumes "Run_body env (New env) = (t, Returned x, ds, l)" "ds \<in> deferred_stacks"
  shows "\<exists>new. calls (Run env) = t @ new \<and> (\<forall>y\<in>set new. deferred_call y) \<and>
     ret (Run env) = (if snd (run_deferred env l ds t) then Returned x else Blocked) \<and>
     events (Run env) =
       encoded t @
       (if l \<and> routines_emit env = BeforeReturn
        then encoded (fst (routines_task env (stBase (New env)) (New env))) else []) @
       encoded new @
       (if l \<and> routines_emit env = AfterReturn
        then encoded (fst (routines_task env (stBase (New env)) (New env))) else []) \<and>
     (if snd (run_deferred env l ds t)
      then \<exists>ev. encoded new = [ev] \<and> Aborted (Status ev) else encoded new = [])"
proof -
  obtain new where n: "fst (run_deferred env l ds t) = t @ new" "\<forall>x\<in>set new. deferred_call x"
    "if snd (run_deferred env l ds t)
      then \<exists>ev. encoded new = [ev] \<and> Aborted (Status ev) else encoded new = []"
    using run_deferred_stacks [OF assms(2), of env l t] by blast
  show ?thesis
    by (rule exI [of _ new]) (simp add: Run_def assms(1) n Let_def)
qed

lemma Run_blocked:
  assumes "Run_body env (New env) = (t, Blocked, ds, l)"
  shows "calls (Run env) = t \<and> ret (Run env) = Blocked \<and>
     events (Run env) =
       encoded t @
       (if l \<and> routines_emit env \<noteq> NotEmitted
        then encoded (fst (routines_task env (stBase (New env)) (New env))) else [])"
  using assms by (cases "routines_emit env") (simp_all add: Run_def Let_def added_def)

lemma New_simps [simp]: "LocalPort (New env) = SSH_LocalPort env" "onClose (New env) = []"
  by (simp_all add: New_def)

lemma all_deferred_stack [simp]: "all_deferred \<in> deferred_stacks"
  by (simp add: deferred_stacks_def)

lemma run_deferred_all_done [simp]:
  "snd (run_deferred env w all_deferred t) = (w \<or> pipe_eof env qStderr \<and> pipe_eof env qStdout)"
  using run_deferred_all by blast

text \<open>
  Claim C7. When QEMU exits by itself (the startup has succeeded, \<^verbatim>\<open>qWaitCh\<close> delivers
  first, no interrupt), \<^verbatim>\<open>Run\<close> returns the result of \<^verbatim>\<open>qCmd.Wait()\<close> as it is,
  and the teardown stack is not run: \<^verbatim>\<open>close\<close> is not called, and neither the exit of
  the SSH master nor the closing of any mount is among the calls of \<^verbatim>\<open>Run\<close>.
\<close>

theorem Run_QEMU_exit_no_teardown:
  assumes "startup_ok env" "main_select env = QExit r"
  shows "ret (Run env) = Returned r \<and>
     Log InfoLevel ''Shutting down the host agent'' \<notin> set (calls (Run env)) \<and>
     (\<forall>p. ssh_ExitMaster p \<notin> set (calls (Run env))) \<and>
     (\<forall>m. m_close m \<notin> set (calls (Run env)))"
proof -
  from assms(1) have ok: "StdoutPipe_err env = None" "StderrPipe_err env = None"
    "Start_err env = None" "0 \<le> LocalPort (New env)" "keygen_err env = None"
    "onClose (New env) = []"
    by (simp_all add: startup_ok_def)
  let ?b = "Encode \<lparr>Time = At (time_Now env start_calls), Status = stBase (New env)\<rparr>"
  from Run_body_keygen_ok [OF ok] obtain x new r' where
    b: "Run_body env (New env) =
      ((start_calls @ ?b # x @
         [ssh_keygen_R (LocalPort (New env)), go_startHostAgentRoutines]) @ new,
       r', all_deferred, True)"
    and l: "Run_loop env (at_select env (stBase (New env)) (New env))
       (start_calls @ ?b # x @
         [ssh_keygen_R (LocalPort (New env)), go_startHostAgentRoutines]) =
      ((start_calls @ ?b # x @
         [ssh_keygen_R (LocalPort (New env)), go_startHostAgentRoutines]) @ new, r')"
    and x: "set x \<subseteq> {Log ErrorLevel ''failed to emit an event''}"
    by blast
  from l have new: "new = [select_sigintCh_qWaitCh, Log InfoLevel ''QEMU has exited'']"
    and r': "r' = Returned r"
    by (simp_all add: Run_loop_QExit [OF assms(2)])
  from Run_returned [OF b [unfolded r'] all_deferred_stack] obtain dnew where
    c: "calls (Run env) = ((start_calls @ ?b # x @
         [ssh_keygen_R (LocalPort (New env)), go_startHostAgentRoutines]) @ new) @ dnew"
    and d: "\<forall>y\<in>set dnew. deferred_call y"
    and rt: "ret (Run env) = (if snd (run_deferred env True all_deferred
        ((start_calls @ ?b # x @
         [ssh_keygen_R (LocalPort (New env)), go_startHostAgentRoutines]) @ new))
        then Returned r else Blocked)"
    by blast
  show ?thesis
    using x d by (auto simp: c rt new start_calls_def)
qed


lemma encoded_start_calls [simp]: "encoded start_calls = []"
  by (simp add: start_calls_def)



lemma run_deferred_stdout_done [simp]:
  "snd (run_deferred env w [defer_logPipeRoutine qStdout, defer_abortEv] t) =
     (w \<or> pipe_eof env qStdout)"
  using run_deferred_stdout by blast

lemma run_deferred_abort_done [simp]: "snd (run_deferred env w [defer_abortEv] t)"
  using run_deferred_abort by blast





text \<open>
  Claim C6, as the code has it. When the interrupt arrives after the startup goroutine has
  registered its two actions, \<^verbatim>\<open>close\<close> runs them before the shutdown protocol begins
  and in the reverse of their registration: first the unmount action, then the exit of the
  SSH master. The unmount action is one action for all mounts and closes them in the order
  in which \<^verbatim>\<open>setupMounts\<close> returned them; no mount is closed anywhere else.
\<close>

theorem Run_interrupt_unmounts:
  assumes "startup_ok env" "main_select env = Sigint" "2 \<le> registered env"
  shows "\<exists>pre post.
     calls (Run env) =
       pre @ map m_close (fst (setupMounts_result env)) @
       Log DebugLevel ''shutting down the SSH master'' # ssh_ExitMaster (SSH_LocalPort env) # post \<and>
     unmounts pre = [] \<and> unmounts post = [] \<and>
     Log InfoLevel ''Shutting down QEMU with ACPI'' \<notin> set pre \<and>
     Log InfoLevel ''Shutting down QEMU with ACPI'' \<in> set post"
proof -
  from assms(1) have ok: "StdoutPipe_err env = None" "StderrPipe_err env = None"
    "Start_err env = None" "0 \<le> LocalPort (New env)" "keygen_err env = None"
    "onClose (New env) = []"
    by (simp_all add: startup_ok_def)
  let ?b = "Encode \<lparr>Time = At (time_Now env start_calls), Status = stBase (New env)\<rparr>"
  from Run_body_keygen_ok [OF ok] obtain x new r' where
    b: "Run_body env (New env) =
      ((start_calls @ ?b # x @
         [ssh_keygen_R (LocalPort (New env)), go_startHostAgentRoutines]) @ new,
       r', all_deferred, True)"
    and l: "Run_loop env (at_select env (stBase (New env)) (New env))
       (start_calls @ ?b # x @
         [ssh_keygen_R (LocalPort (New env)), go_startHostAgentRoutines]) =
      ((start_calls @ ?b # x @
         [ssh_keygen_R (LocalPort (New env)), go_startHostAgentRoutines]) @ new, r')"
    and x: "set x \<subseteq> {Log ErrorLevel ''failed to emit an event''}"
    by blast
  let ?t = "start_calls @ ?b # x @
      [ssh_keygen_R (LocalPort (New env)), go_startHostAgentRoutines]"
  let ?pre = "?t @ [select_sigintCh_qWaitCh,
      Log InfoLevel ''Received SIGINT, shutting down the host agent'',
      Log InfoLevel ''Shutting down the host agent'']"
  from Run_loop_Sigint [OF assms(2) ok(6) assms(3), of "stBase (New env)" ?t] l
  obtain w rest where s: "?t @ new = ?pre @ map m_close (fst (setupMounts_result env)) @
      Log DebugLevel ''shutting down the SSH master'' # ssh_ExitMaster (LocalPort (New env)) #
      w @ Log InfoLevel ''Shutting down QEMU with ACPI'' # qmp_NewSocketMonitor # rest"
    "unmounts w = []" "Log InfoLevel ''Shutting down QEMU with ACPI'' \<notin> set w"
    "unmounts rest = []"
    by auto
  have "\<exists>dnew. calls (Run env) = (?t @ new) @ dnew \<and> unmounts dnew = []"
  proof (cases r')
    case (Returned y)
    from Run_returned [OF b [unfolded Returned] all_deferred_stack] obtain dnew where
      "calls (Run env) = (?t @ new) @ dnew" "\<forall>y\<in>set dnew. deferred_call y"
      by blast
    with deferred_call_unmounts [of dnew] show ?thesis by auto
  next
    case Blocked
    from Run_blocked [OF b [unfolded Blocked]] show ?thesis by simp
  qed
  then obtain dnew where c: "calls (Run env) = (?t @ new) @ dnew" "unmounts dnew = []"
    by blast
  from x have ux: "unmounts x = []" "Log InfoLevel ''Shutting down QEMU with ACPI'' \<notin> set x"
    by (auto simp: unmounts_Nil_iff)
  let ?post = "w @ Log InfoLevel ''Shutting down QEMU with ACPI'' # qmp_NewSocketMonitor # rest @ dnew"
  have c': "calls (Run env) = ?pre @ map m_close (fst (setupMounts_result env)) @
       Log DebugLevel ''shutting down the SSH master'' # ssh_ExitMaster (SSH_LocalPort env) # ?post"
    by (simp only: c(1) s(1)) simp
  have "unmounts ?pre = [] \<and> unmounts ?post = [] \<and>
     Log InfoLevel ''Shutting down QEMU with ACPI'' \<notin> set ?pre \<and>
     Log InfoLevel ''Shutting down QEMU with ACPI'' \<in> set ?post"
    using ux s(2,3,4) c(2) by (simp add: start_calls_def)
  with c' show ?thesis by blast
qed

subsection \<open>\<^verbatim>\<open>Run\<close> in the concrete environments\<close>

lemmas Run_unfold = Run_def New_def Run_body_def Run_start_def Run_boot_def Run_loop_def
  at_select_def routines_task_def startHostAgentRoutines_def stBase_def emitEvent_def
  logPipeRoutine_def pipe_header_def shutdownQEMU_def killQEMU_def deferring_def close_def
  exit_master_def unmount_all_def append_err_def multierror_Append_def parts_opt_def
  zero_Status_def abortEv_def added_def





text \<open>
  Claim C6 as it is worded fails with two mounts: they are closed in the order of their
  setup, not in the reverse.
\<close>

theorem Run_interrupt_unmounts_counterexample:
  "main_select two_mounts_env = Sigint \<and> registered two_mounts_env = 2 \<and>
   fst (setupMounts_result two_mounts_env) = [mount_A, mount_B] \<and>
   unmounts (calls (Run two_mounts_env)) = [mount_A, mount_B] \<and>
   unmounts (calls (Run two_mounts_env)) \<noteq> rev [mount_A, mount_B]"
  by (simp add: two_mounts_env_def quiet_env_def mount_A_def mount_B_def Run_unfold)

text \<open>An interrupt with two mounts registered.\<close>

theorem Run_interrupt_unmounts_witness:
  "startup_ok two_mounts_env \<and> main_select two_mounts_env = Sigint \<and>
   2 \<le> registered two_mounts_env \<and>
   unmounts (calls (Run two_mounts_env)) = [mount_A, mount_B]"
proof -
  have h: "startup_ok two_mounts_env" "main_select two_mounts_env = Sigint"
    "2 \<le> registered two_mounts_env"
    by (simp_all add: two_mounts_env_def quiet_env_def startup_ok_def)
  have m: "fst (setupMounts_result two_mounts_env) = [mount_A, mount_B]"
    by (simp add: two_mounts_env_def quiet_env_def)
  from Run_interrupt_unmounts [OF h] obtain pre post where
    "calls (Run two_mounts_env) =
       pre @ map m_close (fst (setupMounts_result two_mounts_env)) @
       Log DebugLevel ''shutting down the SSH master'' #
       ssh_ExitMaster (SSH_LocalPort two_mounts_env) # post"
    "unmounts pre = []" "unmounts post = []"
    by blast
  with h m show ?thesis by simp
qed

text \<open>
  QEMU exits with status 1 and no interrupt, with output left that no end of file follows:
  that error is returned all the same, and \<^verbatim>\<open>close\<close> is not called.
\<close>

theorem Run_QEMU_exit_no_teardown_witness:
  "startup_ok exit_1_env \<and> main_select exit_1_env = QExit (Some (Err ''exit status 1'')) \<and>
   ret (Run exit_1_env) = Returned (Some (Err ''exit status 1'')) \<and>
   Log InfoLevel ''Shutting down the host agent'' \<notin> set (calls (Run exit_1_env))"
  using Run_QEMU_exit_no_teardown [of exit_1_env "Some (Err ''exit status 1'')"]
  by (simp add: exit_1_env_def quiet_env_def startup_ok_def)



end
